theory Spec2Isabelle
  imports Complex_Main "HOL-Library.Sublist"
begin

section \<open>JavaScript values and strings\<close>

text \<open>
  The services of \<^verbatim>\<open>dalco-backend-firebase/src/services\<close> are modelled here:
  \<^verbatim>\<open>jamai.service.js\<close> (language detection, intent classification, entity extraction)
  and \<^verbatim>\<open>messageProcessor.service.js\<close> (the message pipeline, lead scoring, batch
  processing and the statistics aggregator).

  A JavaScript string is a \<^typ>\<open>string\<close>: a list of characters with codes below 256
  (the Latin-1 range of UTF-16 code units). A value parsed from JSON is a \<open>jsval\<close>; an
  object is the list of its own properties, and a property that is not in the list
  reads as \<^verbatim>\<open>undefined\<close>, which is \<^const>\<open>None\<close> here.
\<close>

datatype jsval =
    JNull
  | JBool bool
  | JNum rat
  | JStr string
  | JArr "jsval list"
  | JObj "(string \<times> jsval) list"

type_synonym jsobj = "(string \<times> jsval) list"

text \<open>\<^verbatim>\<open>obj.key\<close> for an own property of a plain object.\<close>

definition getProp :: "jsobj \<Rightarrow> string \<Rightarrow> jsval option" where
  "getProp obj k = map_of obj k"

text \<open>
  JavaScript's ToBoolean, as \<^verbatim>\<open>if (x)\<close> and \<^verbatim>\<open>x || y\<close> apply it: \<^verbatim>\<open>undefined\<close>,
  \<^verbatim>\<open>null\<close>, \<^verbatim>\<open>false\<close>, zero and the empty string are falsy, every other value
  (every array and object among them) is truthy.
\<close>

fun truthy :: "jsval option \<Rightarrow> bool" where
  "truthy None = False"
| "truthy (Some JNull) = False"
| "truthy (Some (JBool b)) = b"
| "truthy (Some (JNum n)) = (n \<noteq> 0)"
| "truthy (Some (JStr s)) = (s \<noteq> [])"
| "truthy (Some (JArr _)) = True"
| "truthy (Some (JObj _)) = True"

text \<open>\<^verbatim>\<open>x || d\<close>: the left operand when it is truthy, the right one otherwise.\<close>

definition or_else :: "jsval option \<Rightarrow> jsval \<Rightarrow> jsval" where
  "or_else x d = (if truthy x then the x else d)"

text \<open>
  \<^verbatim>\<open>String.prototype.toLowerCase\<close> on the Latin-1 range: the letters A to Z and the
  accented capitals U+00C0 to U+00DE (the multiplication sign U+00D7 apart) move up by
  32, every other character stays.
\<close>

definition lower_char :: "char \<Rightarrow> char" where
  "lower_char c =
     (let n = (of_char c :: nat)
      in if (65 \<le> n \<and> n \<le> 90) \<or> (192 \<le> n \<and> n \<le> 222 \<and> n \<noteq> 215)
         then char_of (n + 32) else c)"

definition toLowerCase :: "string \<Rightarrow> string" where
  "toLowerCase s = map lower_char s"

text \<open>
  \<^verbatim>\<open>String.prototype.trim\<close> removes white space and line terminators from both ends;
  below 256 these are the codes 9 to 13, 32 and 160.
\<close>

definition isWhite :: "char \<Rightarrow> bool" where
  "isWhite c = (let n = (of_char c :: nat) in (9 \<le> n \<and> n \<le> 13) \<or> n = 32 \<or> n = 160)"

definition trim :: "string \<Rightarrow> string" where
  "trim s = rev (dropWhile isWhite (rev (dropWhile isWhite s)))"

text \<open>\<^verbatim>\<open>s.includes(w)\<close>: \<open>w\<close> occurs in \<open>s\<close> as a contiguous run of characters.\<close>

fun str_includes :: "string \<Rightarrow> string \<Rightarrow> bool" where
  "str_includes [] w = (w = [])"
| "str_includes (c # cs) w = (prefix w (c # cs) \<or> str_includes cs w)"

section \<open>Language detection\<close>

text \<open>
  \<^verbatim>\<open>detectLanguage(text)\<close> of \<^verbatim>\<open>jamai.service.js\<close>, lines 129 to 140.
\<close>

record lang_detection =
  language :: string
  confidence :: rat

definition bmKeywords :: "string list" where
  "bmKeywords =
     [''saya'', ''nak'', ''untuk'', ''dengan'', ''boleh'', ''ada'', ''tak'', ''tidak'']"

definition bmCount :: "string \<Rightarrow> nat" where
  "bmCount text =
     (let lowerText = toLowerCase text
      in length (filter (\<lambda>word. str_includes lowerText word) bmKeywords))"

definition detectLanguage :: "string \<Rightarrow> lang_detection" where
  "detectLanguage text =
     \<lparr>language = (if bmCount text \<ge> 2 then ''bm'' else ''en''),
      confidence = (if bmCount text \<ge> 2 then 8 / 10 else 6 / 10)\<rparr>"

section \<open>Lead scoring\<close>

text \<open>
  \<^verbatim>\<open>calculateLeadScore(entities)\<close> of \<^verbatim>\<open>messageProcessor.service.js\<close>, lines 161 to
  172: the score starts at 50 and each \<^verbatim>\<open>if (entities.f) score += k\<close> adds to it in
  turn.
\<close>

definition addIf :: "jsobj \<Rightarrow> string \<Rightarrow> nat \<Rightarrow> nat \<Rightarrow> nat" where
  "addIf entities k pts score = (if truthy (getProp entities k) then score + pts else score)"

definition calculateLeadScore :: "jsobj \<Rightarrow> nat" where
  "calculateLeadScore entities =
     (let score = 50;
          score = addIf entities ''name'' 10 score;
          score = addIf entities ''phone'' 15 score;
          score = addIf entities ''email'' 15 score;
          score = addIf entities ''date'' 10 score;
          score = addIf entities ''time'' 10 score;
          score = addIf entities ''service_type'' 10 score
      in min score 100)"

section \<open>The collaborators and the AI service\<close>

text \<open>
  The JamAI client, the document store, the spreadsheet writer and the clock are outside
  the program. An \<open>env\<close> gives what each of them answers to a call; a thrown
  \<^verbatim>\<open>Error\<close> is its message.
  \<^item> \<open>chatTable user context\<close>: \<^verbatim>\<open>client.addTableRows\<close> on the chat table with the row
    \<^verbatim>\<open>{User, Context}\<close>; it throws, or answers with \<^verbatim>\<open>rows[0]?.AI\<close>.
  \<^item> \<open>actionTable input\<close>: the same call on the action table; it throws, or answers with
    \<^verbatim>\<open>rows[0]?.Step4_Refine\<close>.
  \<^item> \<open>JSON_parse\<close>: \<^verbatim>\<open>JSON.parse\<close> on a text that starts with an opening brace, so that
    what it returns is an object; \<^const>\<open>None\<close> when it throws a SyntaxError.
  \<^item> \<open>sheetWriter org row\<close>: \<^verbatim>\<open>sheetsService.writeMessageToSheet\<close>, of which the pipeline
    only sees whether it throws.
  \<^item> \<open>storeRejects\<close>: the document store failing a call for a reason of its own
    (network, permissions).
  \<^item> \<open>autoId n\<close>: the identifier the store generates for the \<open>n\<close>-th document it adds.
  \<^item> \<open>clock\<close>: what \<^verbatim>\<open>new Date()\<close> reads, in milliseconds since 1970 (UTC); one call
    of the pipeline reads one instant.
  \<^item> \<open>clock_later\<close>: what the second \<^verbatim>\<open>new Date()\<close> of \<^verbatim>\<open>getProcessingStats\<close> reads,
    the first having read \<open>clock\<close>.
  \<^item> \<open>LocalTZA t isUTC\<close>: the offset of the host's time zone from UTC in milliseconds,
    as ECMA-262 has it: at the UTC time value \<open>t\<close> when \<open>isUTC\<close> holds, at the local
    time value \<open>t\<close> otherwise.
  \<^item> \<open>nativeSource k\<close>: the text that the built-in function which \<^verbatim>\<open>Object.prototype\<close>
    has under the name \<open>k\<close> converts to; its exact form is the engine's.
\<close>

type_synonym error = string

datatype store_call =
    AddTo string
  | UpdateIn string string
  | QueryOf string

record sheet_row =
  row_from :: string
  row_channel :: string
  row_message :: string
  row_intent :: string
  row_entities :: jsobj
  row_response :: "string option"

record env =
  chatTable :: "string \<Rightarrow> string \<Rightarrow> error + string option"
  actionTable :: "string \<Rightarrow> error + string option"
  JSON_parse :: "string \<Rightarrow> jsobj option"
  sheetWriter :: "string \<Rightarrow> sheet_row \<Rightarrow> error option"
  storeRejects :: "store_call \<Rightarrow> error option"
  autoId :: "nat \<Rightarrow> string"
  clock :: int
  clock_later :: int
  LocalTZA :: "int \<Rightarrow> bool \<Rightarrow> int"
  nativeSource :: "string \<Rightarrow> string"

text \<open>
  \<^verbatim>\<open>generateResponse(message, language = 'en', context = {})\<close>, lines 24 to 46. The
  context arrives as \<^verbatim>\<open>JSON.stringify(context)\<close>; the two contexts the program passes
  are the empty object and \<^verbatim>\<open>{intent: i}\<close> for a label \<open>i\<close> that needs no escaping.
\<close>

record gen_result =
  response :: string
  gen_language :: string

definition quote :: string where
  "quote = [CHR 0x22]"

definition emptyContext :: string where
  "emptyContext = ''{}''"

definition intentContext :: "string \<Rightarrow> string" where
  "intentContext i = ''{'' @ quote @ ''intent'' @ quote @ '':'' @ quote @ i @ quote @ ''}''"

definition generateResponse :: "env \<Rightarrow> string \<Rightarrow> string \<Rightarrow> string \<Rightarrow> error + gen_result" where
  "generateResponse env message lang context =
     (case chatTable env message context of
        Inl e \<Rightarrow> Inl e
      | Inr ai \<Rightarrow>
          Inr \<lparr>response =
                 (case ai of
                    None \<Rightarrow> ''No response generated''
                  | Some a \<Rightarrow> if a = [] then ''No response generated'' else a),
               gen_language = lang\<rparr>)"

text \<open>
  \<^verbatim>\<open>text.match(/\{.*\}/s)\<close>: the match starts at the first opening brace and, the star
  being greedy and the dot matching every character, ends at the last closing brace
  after it; there is no match when no closing brace follows the first opening one.
\<close>

definition matchBraces :: "string \<Rightarrow> string option" where
  "matchBraces s =
     (case dropWhile (\<lambda>c. c \<noteq> CHR ''{'') s of
        [] \<Rightarrow> None
      | b # rest \<Rightarrow>
          (case dropWhile (\<lambda>c. c \<noteq> CHR ''}'') (rev rest) of
             [] \<Rightarrow> None
           | r \<Rightarrow> Some (b # rev r)))"

text \<open>\<^verbatim>\<open>extractEntities(text)\<close>, lines 73 to 100.\<close>

record entity_result =
  entities :: jsobj
  originalText :: string

definition extractPrompt :: "string \<Rightarrow> string" where
  "extractPrompt text =
     ''Extract the following entities from this message and return as JSON: ''
     @ ''name, phone, email, date, time, service_type, intent. Message: ''
     @ quote @ text @ quote"

definition parseEntities :: "env \<Rightarrow> string \<Rightarrow> jsobj" where
  "parseEntities env reply =
     (case matchBraces reply of
        None \<Rightarrow> []
      | Some jsonMatch \<Rightarrow>
          (case JSON_parse env jsonMatch of
             Some obj \<Rightarrow> obj
           | None \<Rightarrow> [(''raw'', JStr reply)]))"

definition extractEntities :: "env \<Rightarrow> string \<Rightarrow> error + entity_result" where
  "extractEntities env text =
     (case generateResponse env (extractPrompt text) ''en'' emptyContext of
        Inl e \<Rightarrow> Inl e
      | Inr r \<Rightarrow> Inr \<lparr>entities = parseEntities env (response r), originalText = text\<rparr>)"

text \<open>\<^verbatim>\<open>classifyIntent(text)\<close>, lines 105 to 124.\<close>

record intent_result =
  intent :: string
  intent_confidence :: rat
  rawResponse :: string

definition validIntents :: "string list" where
  "validIntents = [''booking'', ''inquiry'', ''complaint'', ''feedback'', ''general'']"

definition classifyPrompt :: "string \<Rightarrow> string" where
  "classifyPrompt text =
     ''Classify the intent of this message into one of: ''
     @ ''booking, inquiry, complaint, feedback, general. Message: ''
     @ quote @ text @ quote @ ''. Return only the classification.''"

definition classifyIntent :: "env \<Rightarrow> string \<Rightarrow> error + intent_result" where
  "classifyIntent env text =
     (case generateResponse env (classifyPrompt text) ''en'' emptyContext of
        Inl e \<Rightarrow> Inl e
      | Inr r \<Rightarrow>
          (let i = trim (toLowerCase (response r))
           in Inr \<lparr>intent = (if i \<in> set validIntents then i else ''general''),
                    intent_confidence = 85 / 100,
                    rawResponse = response r\<rparr>))"

text \<open>\<^verbatim>\<open>executeActionChain(message, messageType)\<close>, lines 341 to 369: its
  \<^verbatim>\<open>finalResponse\<close>, which is \<^verbatim>\<open>undefined\<close> when the row has no last step.\<close>

definition executeActionChain :: "env \<Rightarrow> string \<Rightarrow> string \<Rightarrow> error + string option" where
  "executeActionChain env message messageType = actionTable env message"

section \<open>The document store\<close>

text \<open>
  The two collections the pipeline writes. A document of \<^verbatim>\<open>messages\<close> has the fields
  the pipeline gives it; the fields a later \<^verbatim>\<open>update\<close> adds are optional. A field of
  a lead that is copied from the entity record holds whatever JSON value was there.
\<close>

record message =
  organizationId :: string
  channelType :: string
  channelId :: "string option"
  direction :: string
  sender :: string
  content :: string
  externalMessageId :: "string option"
  msg_language :: string
  msg_intent :: string
  msg_entities :: jsobj
  processingStatus :: string
  aiResponse :: "string option"
  leadId :: "string option"
  error_detail :: "string option"
  createdAt :: int
  updatedAt :: int
  processedAt :: "int option"

record lead =
  lead_organizationId :: string
  sourceMessageId :: string
  customerName :: jsval
  phone :: jsval
  email :: jsval
  serviceType :: jsval
  preferredDate :: jsval
  preferredTime :: jsval
  status :: string
  score :: nat
  notes_intent :: jsval
  lead_createdAt :: int
  lead_updatedAt :: int

text \<open>
  The store: its documents by identifier, the number of identifiers it has generated,
  the list of the writes it has accepted, oldest first, and the list of the versions
  of its messages: for every accepted write to \<^verbatim>\<open>messages\<close>, the identifier and the
  document as that write left it. The two lists are not data of the program; they are
  kept to say what a run has written. No call of the services deletes a document, so
  there is no such write.
\<close>

datatype store_write = Created string string | Updated string string

record store =
  messages :: "(string \<times> message) list"
  leads :: "(string \<times> lead) list"
  generated :: nat
  writes :: "store_write list"
  versions :: "(string \<times> message) list"

text \<open>
  \<^verbatim>\<open>db.collection(c).add(data)\<close> creates a document under a generated identifier and
  fails when a document of that identifier exists;
  \<^verbatim>\<open>db.collection(c).doc(id).update(fields)\<close> fails when there is no document \<open>id\<close>.
\<close>

definition addMessage :: "env \<Rightarrow> store \<Rightarrow> message \<Rightarrow> store \<times> (error + string)" where
  "addMessage env st d =
     (case storeRejects env (AddTo ''messages'') of
        Some e \<Rightarrow> (st, Inl e)
      | None \<Rightarrow>
          (let i = autoId env (generated st)
           in if map_of (messages st) i \<noteq> None then (st, Inl ''ALREADY_EXISTS'')
              else (st\<lparr>messages := messages st @ [(i, d)],
                       generated := Suc (generated st),
                       writes := writes st @ [Created ''messages'' i],
                       versions := versions st @ [(i, d)]\<rparr>, Inr i)))"

definition addLead :: "env \<Rightarrow> store \<Rightarrow> lead \<Rightarrow> store \<times> (error + string)" where
  "addLead env st d =
     (case storeRejects env (AddTo ''leads'') of
        Some e \<Rightarrow> (st, Inl e)
      | None \<Rightarrow>
          (let i = autoId env (generated st)
           in if map_of (leads st) i \<noteq> None then (st, Inl ''ALREADY_EXISTS'')
              else (st\<lparr>leads := leads st @ [(i, d)],
                       generated := Suc (generated st),
                       writes := writes st @ [Created ''leads'' i]\<rparr>, Inr i)))"

definition updateMessage ::
  "env \<Rightarrow> store \<Rightarrow> string \<Rightarrow> (message \<Rightarrow> message) \<Rightarrow> store \<times> (error + unit)" where
  "updateMessage env st i f =
     (case storeRejects env (UpdateIn ''messages'' i) of
        Some e \<Rightarrow> (st, Inl e)
      | None \<Rightarrow>
          (case map_of (messages st) i of
             None \<Rightarrow> (st, Inl ''NOT_FOUND'')
           | Some d \<Rightarrow>
               (st\<lparr>messages := map (\<lambda>(k, v). if k = i then (k, f v) else (k, v)) (messages st),
                    writes := writes st @ [Updated ''messages'' i],
                    versions := versions st @ [(i, f d)]\<rparr>, Inr ())))"

section \<open>The message pipeline\<close>

text \<open>\<^verbatim>\<open>createLeadFromMessage(organizationId, messageId, entities, phone)\<close>, lines
  130 to 156. The note of a lead is a fixed text around
  \<^verbatim>\<open>entities.intent || 'unknown'\<close>, and \<open>notes_intent\<close> is that value.\<close>

definition leadData :: "env \<Rightarrow> string \<Rightarrow> string \<Rightarrow> jsobj \<Rightarrow> string \<Rightarrow> lead" where
  "leadData env org messageId ents phone_arg =
     \<lparr>lead_organizationId = org,
      sourceMessageId = messageId,
      customerName = or_else (getProp ents ''name'') (JStr ''Unknown''),
      phone = or_else (getProp ents ''phone'') (JStr phone_arg),
      email = or_else (getProp ents ''email'') JNull,
      serviceType = or_else (getProp ents ''service_type'') JNull,
      preferredDate = or_else (getProp ents ''date'') JNull,
      preferredTime = or_else (getProp ents ''time'') JNull,
      status = ''new'',
      score = calculateLeadScore ents,
      notes_intent = or_else (getProp ents ''intent'') (JStr ''unknown''),
      lead_createdAt = clock env,
      lead_updatedAt = clock env\<rparr>"

definition createLeadFromMessage ::
  "env \<Rightarrow> store \<Rightarrow> string \<Rightarrow> string \<Rightarrow> jsobj \<Rightarrow> string \<Rightarrow> store \<times> string option" where
  "createLeadFromMessage env st org messageId ents phone_arg =
     (case addLead env st (leadData env org messageId ents phone_arg) of
        (st', Inr i) \<Rightarrow> (st', Some i)
      | (st', Inl e) \<Rightarrow> (st', None))"

text \<open>\<^verbatim>\<open>processMessage(messageData)\<close>, lines 10 to 125. The input: \<^verbatim>\<open>messageId\<close> and
  \<^verbatim>\<open>channelId\<close> may be missing.\<close>

record message_data =
  md_organizationId :: string
  md_channelType :: string
  md_from :: string
  md_content :: string
  md_messageId :: "string option"
  md_channelId :: "string option"

record process_result =
  success :: bool
  res_messageId :: string
  res_language :: string
  res_intent :: string
  res_entities :: jsobj
  res_response :: "string option"
  res_leadId :: "string option"

text \<open>ToBoolean of a value that is a string or missing.\<close>

definition given :: "string option \<Rightarrow> bool" where
  "given x = (case x of None \<Rightarrow> False | Some s \<Rightarrow> s \<noteq> [])"

text \<open>Step 4: the document the pipeline adds.\<close>

definition newMessage ::
  "env \<Rightarrow> message_data \<Rightarrow> lang_detection \<Rightarrow> intent_result \<Rightarrow> entity_result \<Rightarrow> message" where
  "newMessage env md langDetection intentResult entityResult =
     \<lparr>organizationId = md_organizationId md,
      channelType = md_channelType md,
      channelId = (if given (md_channelId md) then md_channelId md else None),
      direction = ''inbound'',
      sender = md_from md,
      content = md_content md,
      externalMessageId = md_messageId md,
      msg_language = language langDetection,
      msg_intent = intent intentResult,
      msg_entities = entities entityResult,
      processingStatus = ''processing'',
      aiResponse = None,
      leadId = None,
      error_detail = None,
      createdAt = clock env,
      updatedAt = clock env,
      processedAt = None\<rparr>"

text \<open>Step 5: the action chain for a booking or an inquiry, a single reply otherwise.\<close>

definition respond ::
  "env \<Rightarrow> string \<Rightarrow> lang_detection \<Rightarrow> intent_result \<Rightarrow> error + string option" where
  "respond env text langDetection intentResult =
     (if intent intentResult \<in> set [''booking'', ''inquiry'']
      then executeActionChain env text (intent intentResult)
      else (case generateResponse env text (language langDetection)
                   (intentContext (intent intentResult)) of
              Inl e \<Rightarrow> Inl e
            | Inr responseResult \<Rightarrow> Inr (Some (response responseResult))))"

text \<open>Step 6: a lead for a booking or an inquiry, \<^verbatim>\<open>null\<close> otherwise.\<close>

definition leadFor ::
  "env \<Rightarrow> store \<Rightarrow> message_data \<Rightarrow> string \<Rightarrow> intent_result \<Rightarrow> entity_result
     \<Rightarrow> store \<times> string option" where
  "leadFor env st md ref intentResult entityResult =
     (if intent intentResult = ''booking'' \<or> intent intentResult = ''inquiry''
      then createLeadFromMessage env st (md_organizationId md) ref
             (entities entityResult) (md_from md)
      else (st, None))"

text \<open>Step 7: the export in its own \<^verbatim>\<open>try\<close>; the handler logs a warning.\<close>

definition exportRow :: "env \<Rightarrow> string \<Rightarrow> sheet_row \<Rightarrow> error + unit" where
  "exportRow env org r =
     (case sheetWriter env org r of
        None \<Rightarrow> Inr ()
      | Some sheetError \<Rightarrow> Inr ())"

text \<open>Step 8: the fields the last update sets.\<close>

definition completed :: "env \<Rightarrow> string option \<Rightarrow> string option \<Rightarrow> message \<Rightarrow> message" where
  "completed env ai lid d =
     d\<lparr>processingStatus := ''completed'',
       aiResponse := ai,
       leadId := lid,
       processedAt := Some (clock env),
       updatedAt := clock env\<rparr>"

text \<open>The body of the outer \<^verbatim>\<open>try\<close>: the first step that throws ends it.\<close>

definition pipeline :: "env \<Rightarrow> store \<Rightarrow> message_data \<Rightarrow> store \<times> (error + process_result)" where
  "pipeline env st md =
     (let langDetection = detectLanguage (md_content md)
      in case classifyIntent env (md_content md) of
           Inl e \<Rightarrow> (st, Inl e)
         | Inr intentResult \<Rightarrow>
      (case extractEntities env (md_content md) of
           Inl e \<Rightarrow> (st, Inl e)
         | Inr entityResult \<Rightarrow>
      (case addMessage env st (newMessage env md langDetection intentResult entityResult) of
           (st1, Inl e) \<Rightarrow> (st1, Inl e)
         | (st1, Inr ref) \<Rightarrow>
      (case respond env (md_content md) langDetection intentResult of
           Inl e \<Rightarrow> (st1, Inl e)
         | Inr ai \<Rightarrow>
      (case leadFor env st1 md ref intentResult entityResult of
           (st2, lid) \<Rightarrow>
      (case exportRow env (md_organizationId md)
              \<lparr>row_from = md_from md, row_channel = md_channelType md,
               row_message = md_content md, row_intent = intent intentResult,
               row_entities = entities entityResult, row_response = ai\<rparr> of
           Inl e \<Rightarrow> (st2, Inl e)
         | Inr u \<Rightarrow>
      (case updateMessage env st2 ref (completed env ai lid) of
           (st3, Inl e) \<Rightarrow> (st3, Inl e)
         | (st3, Inr u') \<Rightarrow>
             (st3, Inr \<lparr>success = True,
                        res_messageId = ref,
                        res_language = language langDetection,
                        res_intent = intent intentResult,
                        res_entities = entities entityResult,
                        res_response = ai,
                        res_leadId = lid\<rparr>))))))))"

text \<open>The handler of the outer \<^verbatim>\<open>try\<close>: the fields it sets, under the guard
  \<^verbatim>\<open>if (messageData.messageId)\<close>, on the document whose identifier is the caller's
  \<^verbatim>\<open>messageId\<close>; an error of that update is logged, and the first error is thrown again.\<close>

definition failed :: "env \<Rightarrow> error \<Rightarrow> message \<Rightarrow> message" where
  "failed env err d =
     d\<lparr>processingStatus := ''failed'', error_detail := Some err, updatedAt := clock env\<rparr>"

definition processMessage ::
  "env \<Rightarrow> store \<Rightarrow> message_data \<Rightarrow> store \<times> (error + process_result)" where
  "processMessage env st md =
     (case pipeline env st md of
        (st1, Inr r) \<Rightarrow> (st1, Inr r)
      | (st1, Inl err) \<Rightarrow>
          (if given (md_messageId md)
           then (case updateMessage env st1 (the (md_messageId md)) (failed env err) of
                   (st2, Inr u) \<Rightarrow> (st2, Inl err)
                 | (st2, Inl updateError) \<Rightarrow> (st2, Inl err))
           else (st1, Inl err)))"

text \<open>\<^verbatim>\<open>batchProcessMessages(messages)\<close>, lines 177 to 200. An entry of \<^verbatim>\<open>results\<close> is
  the result of the run under \<^verbatim>\<open>success: true\<close>, or the error with the caller's
  \<^verbatim>\<open>messageId\<close>.\<close>

datatype batch_entry =
    Processed process_result
  | Failed error "string option"

fun entry_success :: "batch_entry \<Rightarrow> bool" where
  "entry_success (Processed r) = success r"
| "entry_success (Failed e i) = False"

record batch_summary =
  batch_success :: bool
  total :: nat
  processed :: nat
  failed_count :: nat
  results :: "batch_entry list"

fun batchLoop ::
  "env \<Rightarrow> store \<Rightarrow> message_data list \<Rightarrow> batch_entry list \<Rightarrow> store \<times> batch_entry list" where
  "batchLoop env st [] res = (st, res)"
| "batchLoop env st (m # ms) res =
     (case processMessage env st m of
        (st', Inr r) \<Rightarrow> batchLoop env st' ms (res @ [Processed r])
      | (st', Inl e) \<Rightarrow> batchLoop env st' ms (res @ [Failed e (md_messageId m)]))"

definition batchProcessMessages ::
  "env \<Rightarrow> store \<Rightarrow> message_data list \<Rightarrow> store \<times> batch_summary" where
  "batchProcessMessages env st msgs =
     (case batchLoop env st msgs [] of
        (st', res) \<Rightarrow>
          (st', \<lparr>batch_success = True,
                 total = length msgs,
                 processed = length (filter (\<lambda>r. entry_success r) res),
                 failed_count = length (filter (\<lambda>r. \<not> entry_success r) res),
                 results = res\<rparr>))"

section \<open>The statistics aggregator\<close>

text \<open>
  The methods of \<^verbatim>\<open>Date\<close> that \<^verbatim>\<open>getProcessingStats\<close> calls, as ECMA-262 (section
  21.4.1, Date objects) defines them on time values, which are the milliseconds since
  1970 in UTC. Time values are integers here; the clipping of a time value beyond
  8.64e15 is left out.
\<close>

definition msPerDay :: int where
  "msPerDay = 86400000"

definition Day :: "int \<Rightarrow> int" where
  "Day t = t div msPerDay"

definition TimeWithinDay :: "int \<Rightarrow> int" where
  "TimeWithinDay t = t mod msPerDay"

definition DaysInYear :: "int \<Rightarrow> int" where
  "DaysInYear y =
     (if y mod 4 \<noteq> 0 then 365
      else if y mod 100 \<noteq> 0 then 366
      else if y mod 400 \<noteq> 0 then 365
      else 366)"

definition DayFromYear :: "int \<Rightarrow> int" where
  "DayFromYear y =
     365 * (y - 1970) + (y - 1969) div 4 - (y - 1901) div 100 + (y - 1601) div 400"

text \<open>
  The year of a day number: the largest \<open>y\<close> whose first day is not after it. A mean
  year has 146097 / 400 days, so the quotient below is that year or a neighbour of it.
\<close>

definition YearFromDay :: "int \<Rightarrow> int" where
  "YearFromDay d =
     (let y = 1970 + (400 * d) div 146097
      in if DayFromYear (y + 1) \<le> d then y + 1
         else if DayFromYear y \<le> d then y
         else y - 1)"

definition YearFromTime :: "int \<Rightarrow> int" where
  "YearFromTime t = YearFromDay (Day t)"

definition InLeapYear :: "int \<Rightarrow> int" where
  "InLeapYear t = (if DaysInYear (YearFromTime t) = 366 then 1 else 0)"

definition DayWithinYear :: "int \<Rightarrow> int" where
  "DayWithinYear t = Day t - DayFromYear (YearFromTime t)"

text \<open>The number of days of a year before its month \<open>m\<close>, from 0 for January.\<close>

definition daysBefore :: "int \<Rightarrow> int \<Rightarrow> int" where
  "daysBefore m leap =
     (if m = 0 then 0
      else if m = 1 then 31
      else if m = 2 then 59 + leap
      else if m = 3 then 90 + leap
      else if m = 4 then 120 + leap
      else if m = 5 then 151 + leap
      else if m = 6 then 181 + leap
      else if m = 7 then 212 + leap
      else if m = 8 then 243 + leap
      else if m = 9 then 273 + leap
      else if m = 10 then 304 + leap
      else 334 + leap)"

definition MonthFromTime :: "int \<Rightarrow> int" where
  "MonthFromTime t =
     (let d = DayWithinYear t; leap = InLeapYear t
      in if d < 31 then 0
         else if d < 59 + leap then 1
         else if d < 90 + leap then 2
         else if d < 120 + leap then 3
         else if d < 151 + leap then 4
         else if d < 181 + leap then 5
         else if d < 212 + leap then 6
         else if d < 243 + leap then 7
         else if d < 273 + leap then 8
         else if d < 304 + leap then 9
         else if d < 334 + leap then 10
         else 11)"

definition DateFromTime :: "int \<Rightarrow> int" where
  "DateFromTime t = DayWithinYear t - daysBefore (MonthFromTime t) (InLeapYear t) + 1"

text \<open>
  \<open>MakeDay year month date\<close>: the day number of the first day of the month, which is
  month \<open>month mod 12\<close> of year \<open>year + month div 12\<close>, plus \<open>date - 1\<close>.
\<close>

definition MakeDay :: "int \<Rightarrow> int \<Rightarrow> int \<Rightarrow> int" where
  "MakeDay year month date =
     (let ym = year + month div 12; mn = month mod 12
      in DayFromYear ym + daysBefore mn (if DaysInYear ym = 366 then 1 else 0) + date - 1)"

definition MakeDate :: "int \<Rightarrow> int \<Rightarrow> int" where
  "MakeDate day time = day * msPerDay + time"

definition LocalTime :: "env \<Rightarrow> int \<Rightarrow> int" where
  "LocalTime env t = t + LocalTZA env t True"

definition UTC :: "env \<Rightarrow> int \<Rightarrow> int" where
  "UTC env t = t - LocalTZA env t False"

definition getDate :: "env \<Rightarrow> int \<Rightarrow> int" where
  "getDate env t = DateFromTime (LocalTime env t)"

definition getMonth :: "env \<Rightarrow> int \<Rightarrow> int" where
  "getMonth env t = MonthFromTime (LocalTime env t)"

text \<open>\<^verbatim>\<open>d.setHours(0, 0, 0, 0)\<close>, \<^verbatim>\<open>d.setDate(date)\<close> and \<^verbatim>\<open>d.setMonth(month)\<close>: the
  new time value of \<open>d\<close>.\<close>

definition setHours0 :: "env \<Rightarrow> int \<Rightarrow> int" where
  "setHours0 env t = (let l = LocalTime env t in UTC env (MakeDate (Day l) 0))"

definition setDate :: "env \<Rightarrow> int \<Rightarrow> int \<Rightarrow> int" where
  "setDate env t date =
     (let l = LocalTime env t
      in UTC env (MakeDate (MakeDay (YearFromTime l) (MonthFromTime l) date) (TimeWithinDay l)))"

definition setMonth :: "env \<Rightarrow> int \<Rightarrow> int \<Rightarrow> int" where
  "setMonth env t month =
     (let l = LocalTime env t
      in UTC env (MakeDate (MakeDay (YearFromTime l) month (DateFromTime l)) (TimeWithinDay l)))"

text \<open>\<^verbatim>\<open>getProcessingStats(organizationId, period = 'week')\<close>, lines 205 to 267. The
  \<^verbatim>\<open>switch\<close> on the period: \<^verbatim>\<open>now\<close> is the first \<^verbatim>\<open>new Date()\<close> and \<^verbatim>\<open>startDate\<close> the
  second; the setters change \<^verbatim>\<open>startDate\<close>, the getters read \<^verbatim>\<open>now\<close>.\<close>

definition startDate :: "env \<Rightarrow> string \<Rightarrow> int" where
  "startDate env period =
     (let now = clock env; start = clock_later env
      in if period = ''today'' then setHours0 env start
         else if period = ''week'' then setDate env start (getDate env now - 7)
         else if period = ''month'' then setMonth env start (getMonth env now - 1)
         else setDate env start (getDate env now - 7))"

text \<open>
  The four mappings are objects that start as the literal \<^verbatim>\<open>{}\<close>. The value of an own
  property is a number, or a text once the counting has met a name that
  \<^verbatim>\<open>Object.prototype\<close> has.
\<close>

datatype cell = Count nat | Text string

record stats_record =
  stats_total :: nat
  byStatus :: "string \<rightharpoonup> cell"
  byIntent :: "string \<rightharpoonup> cell"
  byLanguage :: "string \<rightharpoonup> cell"
  byChannel :: "string \<rightharpoonup> cell"
  averageProcessingTime :: nat

record stats_result =
  stats_success :: bool
  period :: string
  stats :: stats_record

text \<open>The names under which \<^verbatim>\<open>Object.prototype\<close> has a built-in function.\<close>

definition inheritedFunctions :: "string list" where
  "inheritedFunctions =
     [''constructor'', ''__defineGetter__'', ''__defineSetter__'', ''hasOwnProperty'',
      ''__lookupGetter__'', ''__lookupSetter__'', ''isPrototypeOf'',
      ''propertyIsEnumerable'', ''toString'', ''valueOf'', ''toLocaleString'']"

text \<open>
  \<^verbatim>\<open>m[k] = (m[k] || 0) + 1\<close>. Reading \<^verbatim>\<open>m[k]\<close> finds the own property \<open>k\<close> of \<open>m\<close>, or
  else what \<^verbatim>\<open>Object.prototype\<close> has under that name:
  \<^item> an own number \<open>n\<close> becomes \<open>n + 1\<close> (\<^verbatim>\<open>0 || 0\<close> is 0);
  \<^item> an own text is truthy unless empty, and \<^verbatim>\<open>+ 1\<close> appends the character \<^verbatim>\<open>1\<close> to it;
  \<^item> with no own property, the name \<^verbatim>\<open>__proto__\<close> reads as \<^verbatim>\<open>Object.prototype\<close> itself,
    an object and so truthy; the sum is a text, and the assignment calls the setter of
    \<^verbatim>\<open>__proto__\<close>, which ignores a value that is neither an object nor null: \<open>m\<close> is as it
    was;
  \<^item> with no own property, a name of \<open>inheritedFunctions\<close> reads as a function, truthy
    too; the sum is the text of the function followed by \<^verbatim>\<open>1\<close>, and the assignment
    makes it an own property;
  \<^item> any other name reads as \<^verbatim>\<open>undefined\<close>, and the own property becomes 1.
\<close>

definition countKey :: "env \<Rightarrow> (string \<rightharpoonup> cell) \<Rightarrow> string \<Rightarrow> (string \<rightharpoonup> cell)" where
  "countKey env m k =
     (case m k of
        Some (Count n) \<Rightarrow> m(k \<mapsto> Count (n + 1))
      | Some (Text s) \<Rightarrow> m(k \<mapsto> (if s = [] then Count 1 else Text (s @ ''1'')))
      | None \<Rightarrow>
          if k = ''__proto__'' then m
          else if k \<in> set inheritedFunctions then m(k \<mapsto> Text (nativeSource env k @ ''1''))
          else m(k \<mapsto> Count 1))"

text \<open>The body of \<^verbatim>\<open>messages.forEach\<close>.\<close>

definition tally :: "env \<Rightarrow> stats_record \<Rightarrow> message \<Rightarrow> stats_record" where
  "tally env s msg =
     (let s = s\<lparr>byStatus := countKey env (byStatus s) (processingStatus msg)\<rparr>;
          s = (if msg_intent msg \<noteq> []
               then s\<lparr>byIntent := countKey env (byIntent s) (msg_intent msg)\<rparr> else s);
          s = (if msg_language msg \<noteq> []
               then s\<lparr>byLanguage := countKey env (byLanguage s) (msg_language msg)\<rparr> else s)
      in s\<lparr>byChannel := countKey env (byChannel s) (channelType msg)\<rparr>)"

text \<open>The documents the query returns: those of the organization created at or after
  the start.\<close>

definition queryMessages :: "store \<Rightarrow> string \<Rightarrow> int \<Rightarrow> message list" where
  "queryMessages st org start =
     map snd (filter (\<lambda>(i, d). organizationId d = org \<and> start \<le> createdAt d) (messages st))"

definition getProcessingStats ::
  "env \<Rightarrow> store \<Rightarrow> string \<Rightarrow> string option \<Rightarrow> error + stats_result" where
  "getProcessingStats env st org period_arg =
     (let p = (case period_arg of None \<Rightarrow> ''week'' | Some p' \<Rightarrow> p');
          start = startDate env p
      in case storeRejects env (QueryOf ''messages'') of
           Some e \<Rightarrow> Inl e
         | None \<Rightarrow>
             (let msgs = queryMessages st org start
              in Inr \<lparr>stats_success = True,
                       period = p,
                       stats = foldl (tally env)
                                 \<lparr>stats_total = length msgs,
                                  byStatus = Map.empty,
                                  byIntent = Map.empty,
                                  byLanguage = Map.empty,
                                  byChannel = Map.empty,
                                  averageProcessingTime = 0\<rparr> msgs\<rparr>))"

section \<open>An environment for the examples\<close>

text \<open>
  The examples below run the services in this environment, changed where an example
  says so: the AI service answers every prompt with \<^verbatim>\<open>booking\<close>, the action chain ends
  in a fixed reply, the spreadsheet and the store accept every call, the \<open>n\<close>-th
  generated identifier is \<open>n + 1\<close> letters \<^verbatim>\<open>a\<close>, the two readings of the clock by
  \<^verbatim>\<open>getProcessingStats\<close> are the same millisecond, local time is eight hours ahead of
  UTC throughout (Malaysia's zone), and a built-in function converts to the text that
  V8 gives it. \<open>JSON_parse\<close> accepts the one JSON text \<open>demoJSON\<close> and refuses every
  other text; the examples apply it to texts that are not JSON.
\<close>

definition demoJSON :: string where
  "demoJSON = ''{'' @ quote @ ''date'' @ quote @ '':'' @ quote @ ''Friday'' @ quote @ ''}''"

definition demoEnv :: env where
  "demoEnv =
     \<lparr>chatTable = (\<lambda>user context. Inr (Some ''booking'')),
      actionTable = (\<lambda>input. Inr (Some ''We have a slot on Friday at 2pm.'')),
      JSON_parse = (\<lambda>s. if s = demoJSON then Some [(''date'', JStr ''Friday'')] else None),
      sheetWriter = (\<lambda>org r. None),
      storeRejects = (\<lambda>c. None),
      autoId = (\<lambda>n. replicate (Suc n) (CHR ''a'')),
      clock = 1700000000000,
      clock_later = 1700000000000,
      LocalTZA = (\<lambda>t isUTC. 28800000),
      nativeSource = (\<lambda>k. ''function '' @ (if k = ''constructor'' then ''Object'' else k)
                               @ ''() { [native code] }'')\<rparr>"

definition emptyStore :: store where
  "emptyStore = \<lparr>messages = [], leads = [], generated = 0, writes = [], versions = []\<rparr>"

definition demoMessage :: message_data where
  "demoMessage =
     \<lparr>md_organizationId = ''org1'',
      md_channelType = ''whatsapp'',
      md_from = ''+60123456789'',
      md_content = ''Saya nak buat appointment Jumaat 2pm'',
      md_messageId = Some ''msg_1700000000000'',
      md_channelId = None\<rparr>"

text \<open>
  A store for the aggregator: three messages of \<^verbatim>\<open>org1\<close> created on the local day
  of the clock (the first at its midnight), two of them completed and one failed, a
  message of the millisecond before that day, and a message of another organization.
\<close>

definition demoDoc :: "string \<Rightarrow> string \<Rightarrow> int \<Rightarrow> message" where
  "demoDoc org st_text created =
     \<lparr>organizationId = org,
      channelType = ''whatsapp'',
      channelId = None,
      direction = ''inbound'',
      sender = ''+60123456789'',
      content = ''Boleh saya tahu harga?'',
      externalMessageId = None,
      msg_language = ''bm'',
      msg_intent = ''inquiry'',
      msg_entities = [],
      processingStatus = st_text,
      aiResponse = None,
      leadId = None,
      error_detail = None,
      createdAt = created,
      updatedAt = created,
      processedAt = None\<rparr>"

definition demoStore :: store where
  "demoStore =
     \<lparr>messages =
        [(''m0'', demoDoc ''org1'' ''completed'' 1699977599999),
         (''m1'', demoDoc ''org1'' ''completed'' 1699977600000),
         (''m2'', demoDoc ''org1'' ''failed'' 1699990000000),
         (''m3'', demoDoc ''org2'' ''completed'' 1699990000001),
         (''m4'', demoDoc ''org1'' ''completed'' 1700000000000)],
      leads = [],
      generated = 5,
      writes = [],
      versions = []\<rparr>"

section \<open>Properties\<close>

lemma includes_iff: "str_includes s w \<longleftrightarrow> (\<exists>ps ss. s = ps @ w @ ss)"
proof (induction s)
  case Nil
  then show ?case by auto
next
  case (Cons c cs)
  show ?case
  proof
    assume "str_includes (c # cs) w"
    then consider "prefix w (c # cs)" | "str_includes cs w" by auto
    then show "\<exists>ps ss. c # cs = ps @ w @ ss"
    proof cases
      case 1
      then obtain ss where "c # cs = w @ ss" by (auto simp: prefix_def)
      then have "c # cs = [] @ w @ ss" by simp
      then show ?thesis by blast
    next
      case 2
      with Cons.IH obtain ps ss where "cs = ps @ w @ ss" by blast
      then have "c # cs = (c # ps) @ w @ ss" by simp
      then show ?thesis by blast
    qed
  next
    assume "\<exists>ps ss. c # cs = ps @ w @ ss"
    then obtain ps ss where eq: "c # cs = ps @ w @ ss" by blast
    show "str_includes (c # cs) w"
    proof (cases ps)
      case Nil
      with eq have "prefix w (c # cs)" by (simp add: prefix_def)
      then show ?thesis by simp
    next
      case (Cons p ps')
      with eq have "cs = ps' @ w @ ss" by simp
      with Cons.IH have "str_includes cs w" by blast
      then show ?thesis by simp
    qed
  qed
qed

subsection \<open>Lead scoring\<close>

text \<open>
  Claim C3. For every entity record, \<open>calculateLeadScore\<close> returns 50 plus 10 for a
  name, 15 for a phone, 15 for an email, 10 for a date, 10 for a time and 10 for a
  service type, capped at 100; so the score lies between 50 and 100, and a missing
  field adds nothing. A field counts as present when \<^verbatim>\<open>if (entities.field)\<close> takes it,
  which is when its value is truthy.
\<close>

theorem calculateLeadScore_value:
  "calculateLeadScore e =
     min 100 (50 + (if truthy (getProp e ''name'') then 10 else 0)
                 + (if truthy (getProp e ''phone'') then 15 else 0)
                 + (if truthy (getProp e ''email'') then 15 else 0)
                 + (if truthy (getProp e ''date'') then 10 else 0)
                 + (if truthy (getProp e ''time'') then 10 else 0)
                 + (if truthy (getProp e ''service_type'') then 10 else 0))
   \<and> 50 \<le> calculateLeadScore e \<and> calculateLeadScore e \<le> 100"
  by (simp add: calculateLeadScore_def addIf_def Let_def)

subsection \<open>Language detection\<close>

lemma distinct_bmKeywords: "distinct bmKeywords"
  by (simp add: bmKeywords_def)

lemma bmCount_card:
  "bmCount text = card {w \<in> set bmKeywords. \<exists>ps ss. toLowerCase text = ps @ w @ ss}"
proof -
  have "bmCount text
          = length (filter (\<lambda>w. \<exists>ps ss. toLowerCase text = ps @ w @ ss) bmKeywords)"
    by (simp add: bmCount_def includes_iff)
  also have "\<dots> = card ({w. \<exists>ps ss. toLowerCase text = ps @ w @ ss} \<inter> set bmKeywords)"
    by (rule distinct_length_filter [OF distinct_bmKeywords])
  also have "{w. \<exists>ps ss. toLowerCase text = ps @ w @ ss} \<inter> set bmKeywords
           = {w \<in> set bmKeywords. \<exists>ps ss. toLowerCase text = ps @ w @ ss}"
    by blast
  finally show ?thesis .
qed

text \<open>
  Claim C4. \<open>detectLanguage\<close> is a function of its text alone, defined on every text.
  It answers \<^verbatim>\<open>bm\<close> with confidence 0.8 exactly when at least two of the eight marker
  words occur in the lower-cased text as contiguous runs of characters, and \<^verbatim>\<open>en\<close>
  with confidence 0.6 otherwise.
\<close>

theorem detectLanguage_spec:
  "detectLanguage text =
     (if 2 \<le> card {w \<in> set bmKeywords. \<exists>ps ss. toLowerCase text = ps @ w @ ss}
      then \<lparr>language = ''bm'', confidence = 8 / 10\<rparr>
      else \<lparr>language = ''en'', confidence = 6 / 10\<rparr>)"
  by (simp add: detectLanguage_def bmCount_card)

subsection \<open>Intent classification\<close>

lemma set_validIntents:
  "set validIntents = {''booking'', ''inquiry'', ''complaint'', ''feedback'', ''general''}"
  by (simp add: validIntents_def)

text \<open>
  Claim C5. Whatever the generation service replies, \<open>classifyIntent\<close> lower-cases and
  trims the reply; the intent it returns is that text when it is one of the five
  labels and \<^verbatim>\<open>general\<close> otherwise, and the confidence is 0.85.
\<close>

theorem classifyIntent_normalises:
  assumes "generateResponse env (classifyPrompt text) ''en'' emptyContext = Inr g"
  shows "\<exists>r. classifyIntent env text = Inr r
           \<and> rawResponse r = response g
           \<and> intent_confidence r = 85 / 100
           \<and> intent r \<in> {''booking'', ''inquiry'', ''complaint'', ''feedback'', ''general''}
           \<and> intent r = (if trim (toLowerCase (response g))
                              \<in> {''booking'', ''inquiry'', ''complaint'', ''feedback'', ''general''}
                          then trim (toLowerCase (response g)) else ''general'')"
  using assms by (auto simp: classifyIntent_def Let_def set_validIntents)

text \<open>A reply with capitals and blanks around the label.\<close>

theorem classifyIntent_normalises_witness:
  "\<exists>r. classifyIntent (demoEnv\<lparr>chatTable := \<lambda>user context. Inr (Some ''  Inquiry '')\<rparr>) ''How much?'' = Inr r
     \<and> rawResponse r = ''  Inquiry '' \<and> intent_confidence r = 85 / 100 \<and> intent r = ''inquiry''"
proof -
  let ?env = "demoEnv\<lparr>chatTable := \<lambda>user context. Inr (Some ''  Inquiry '')\<rparr>"
  have g: "generateResponse ?env (classifyPrompt ''How much?'') ''en'' emptyContext
             = Inr \<lparr>response = ''  Inquiry '', gen_language = ''en''\<rparr>"
    by (simp add: generateResponse_def)
  have n: "trim (toLowerCase ''  Inquiry '') = ''inquiry''"
    by code_simp
  from classifyIntent_normalises [OF g] n show ?thesis by auto
qed

subsection \<open>Entity extraction\<close>

lemma dropWhile_neq_Cons:
  assumes "dropWhile (\<lambda>c. c \<noteq> x) s = y # r"
  shows "y = x \<and> s = takeWhile (\<lambda>c. c \<noteq> x) s @ x # r \<and> x \<notin> set (takeWhile (\<lambda>c. c \<noteq> x) s)"
proof -
  have "dropWhile (\<lambda>c. c \<noteq> x) s \<noteq> []" using assms by simp
  then have "\<not> (hd (dropWhile (\<lambda>c. c \<noteq> x) s) \<noteq> x)" by (rule hd_dropWhile)
  with assms have y: "y = x" by simp
  have "takeWhile (\<lambda>c. c \<noteq> x) s @ dropWhile (\<lambda>c. c \<noteq> x) s = s"
    by (rule takeWhile_dropWhile_id)
  with assms y have s: "s = takeWhile (\<lambda>c. c \<noteq> x) s @ x # r" by simp
  have "x \<notin> set (takeWhile (\<lambda>c. c \<noteq> x) s)"
    using set_takeWhileD [of x "\<lambda>c. c \<noteq> x" s] by blast
  with y s show ?thesis by blast
qed

lemma set_tl_dropWhile:
  "\<not> P x \<Longrightarrow> set t \<subseteq> set (tl (dropWhile P (a @ x # t)))"
  by (induction a) auto

lemma matchBraces_Some:
  assumes "matchBraces s = Some j"
  shows "\<exists>a b c. s = a @ j @ c \<and> j = CHR ''{'' # b @ [CHR ''}'']
           \<and> CHR ''{'' \<notin> set a \<and> CHR ''}'' \<notin> set c"
proof -
  from assms obtain y rest where d: "dropWhile (\<lambda>c. c \<noteq> CHR ''{'') s = y # rest"
    by (auto simp: matchBraces_def split: list.splits)
  from dropWhile_neq_Cons [OF d]
  have y: "y = CHR ''{''"
    and s: "s = takeWhile (\<lambda>c. c \<noteq> CHR ''{'') s @ CHR ''{'' # rest"
    and a: "CHR ''{'' \<notin> set (takeWhile (\<lambda>c. c \<noteq> CHR ''{'') s)" by blast+
  from assms d obtain z r where e: "dropWhile (\<lambda>c. c \<noteq> CHR ''}'') (rev rest) = z # r"
    and j: "j = y # rev (z # r)"
    by (auto simp: matchBraces_def split: list.splits)
  from dropWhile_neq_Cons [OF e]
  have z: "z = CHR ''}''"
    and rr: "rev rest = takeWhile (\<lambda>c. c \<noteq> CHR ''}'') (rev rest) @ CHR ''}'' # r"
    and c: "CHR ''}'' \<notin> set (takeWhile (\<lambda>c. c \<noteq> CHR ''}'') (rev rest))" by blast+
  let ?c = "rev (takeWhile (\<lambda>c. c \<noteq> CHR ''}'') (rev rest))"
  from rr have "rev (rev rest) = rev (takeWhile (\<lambda>c. c \<noteq> CHR ''}'') (rev rest) @ CHR ''}'' # r)"
    by simp
  then have rest: "rest = rev r @ [CHR ''}''] @ ?c" by simp
  have "s = takeWhile (\<lambda>c. c \<noteq> CHR ''{'') s @ j @ ?c"
    using s rest j y z by simp
  moreover have "j = CHR ''{'' # rev r @ [CHR ''}'']" using j y z by simp
  moreover have "CHR ''}'' \<notin> set ?c" using c by simp
  ultimately show ?thesis using a by blast
qed

lemma matchBraces_None:
  "matchBraces s = None \<longleftrightarrow> \<not> (\<exists>a b c. s = a @ CHR ''{'' # b @ CHR ''}'' # c)"
proof
  assume n: "matchBraces s = None"
  show "\<not> (\<exists>a b c. s = a @ CHR ''{'' # b @ CHR ''}'' # c)"
  proof
    assume "\<exists>a b c. s = a @ CHR ''{'' # b @ CHR ''}'' # c"
    then obtain a b c where s: "s = a @ CHR ''{'' # b @ CHR ''}'' # c" by blast
    have "set (b @ CHR ''}'' # c) \<subseteq> set (tl (dropWhile (\<lambda>c. c \<noteq> CHR ''{'') s))"
      unfolding s by (rule set_tl_dropWhile) simp
    then have in_tl: "CHR ''}'' \<in> set (tl (dropWhile (\<lambda>c. c \<noteq> CHR ''{'') s))" by auto
    then obtain y rest where d: "dropWhile (\<lambda>c. c \<noteq> CHR ''{'') s = y # rest"
      by (cases "dropWhile (\<lambda>c. c \<noteq> CHR ''{'') s") auto
    with in_tl have "CHR ''}'' \<in> set (rev rest)" by simp
    then have "dropWhile (\<lambda>c. c \<noteq> CHR ''}'') (rev rest) \<noteq> []"
      by (simp add: dropWhile_eq_Nil_conv)
    with d have "matchBraces s \<noteq> None"
      by (auto simp: matchBraces_def split: list.splits)
    with n show False by simp
  qed
next
  assume no: "\<not> (\<exists>a b c. s = a @ CHR ''{'' # b @ CHR ''}'' # c)"
  show "matchBraces s = None"
  proof (cases "matchBraces s")
    case None
    then show ?thesis .
  next
    case (Some j)
    from matchBraces_Some [OF Some] obtain a b c where
      "s = a @ j @ c" "j = CHR ''{'' # b @ [CHR ''}'']" by blast
    then have "s = a @ CHR ''{'' # b @ CHR ''}'' # c" by simp
    with no show ?thesis by blast
  qed
qed

text \<open>
  Claim C2, as stated, fails: a reply that is not JSON and has no brace in it leaves
  the entity record empty; it is not the record \<^verbatim>\<open>{raw: reply}\<close>.
\<close>

theorem extractEntities_plain_reply:
  "extractEntities (demoEnv\<lparr>chatTable := \<lambda>user context. Inr (Some ''No entities found.'')\<rparr>) ''hello''
     = Inr \<lparr>entities = [], originalText = ''hello''\<rparr>
   \<and> JSON_parse demoEnv ''No entities found.'' = None
   \<and> ([] :: jsobj) \<noteq> [(''raw'', JStr ''No entities found.'')]"
  by (simp add: extractEntities_def generateResponse_def parseEntities_def matchBraces_def
        demoEnv_def demoJSON_def)

text \<open>
  Claim C2, amended. \<open>extractEntities\<close> throws only what the call of the generation
  service throws. When that call returns: a reply in which no closing brace follows an
  opening one gives the empty record; otherwise the text from the first opening brace to
  the last closing brace is parsed, the record is what the parser returns, and it is
  \<^verbatim>\<open>{raw: reply}\<close>, with the whole reply, when the parser refuses that text.
\<close>

theorem extractEntities_fallback:
  "((extractEntities env text = Inl e)
      = (generateResponse env (extractPrompt text) ''en'' emptyContext = Inl e))
   \<and> (generateResponse env (extractPrompt text) ''en'' emptyContext = Inr g \<longrightarrow>
        (\<exists>r. extractEntities env text = Inr r \<and> originalText r = text
           \<and> (matchBraces (response g) = None \<longrightarrow> entities r = [])
           \<and> (\<forall>j. matchBraces (response g) = Some j \<and> JSON_parse env j = None
                  \<longrightarrow> entities r = [(''raw'', JStr (response g))])
           \<and> (\<forall>j obj. matchBraces (response g) = Some j \<and> JSON_parse env j = Some obj
                  \<longrightarrow> entities r = obj)))
   \<and> ((matchBraces s = None) = (\<not> (\<exists>a b c. s = a @ CHR ''{'' # b @ CHR ''}'' # c)))
   \<and> (matchBraces s = Some j \<longrightarrow>
        (\<exists>a b c. s = a @ j @ c \<and> j = CHR ''{'' # b @ [CHR ''}'']
           \<and> CHR ''{'' \<notin> set a \<and> CHR ''}'' \<notin> set c))"
proof (intro conjI impI)
  show "(extractEntities env text = Inl e)
      = (generateResponse env (extractPrompt text) ''en'' emptyContext = Inl e)"
    by (simp add: extractEntities_def split: sum.splits)
next
  assume "generateResponse env (extractPrompt text) ''en'' emptyContext = Inr g"
  then show "\<exists>r. extractEntities env text = Inr r \<and> originalText r = text
           \<and> (matchBraces (response g) = None \<longrightarrow> entities r = [])
           \<and> (\<forall>j. matchBraces (response g) = Some j \<and> JSON_parse env j = None
                  \<longrightarrow> entities r = [(''raw'', JStr (response g))])
           \<and> (\<forall>j obj. matchBraces (response g) = Some j \<and> JSON_parse env j = Some obj
                  \<longrightarrow> entities r = obj)"
    by (auto simp: extractEntities_def parseEntities_def)
next
  show "(matchBraces s = None) = (\<not> (\<exists>a b c. s = a @ CHR ''{'' # b @ CHR ''}'' # c))"
    by (rule matchBraces_None)
next
  assume "matchBraces s = Some j"
  then show "\<exists>a b c. s = a @ j @ c \<and> j = CHR ''{'' # b @ [CHR ''}'']
           \<and> CHR ''{'' \<notin> set a \<and> CHR ''}'' \<notin> set c"
    by (rule matchBraces_Some)
qed

text \<open>A reply whose braces hold a bare word, which is not JSON.\<close>

theorem extractEntities_fallback_witness:
  "extractEntities (demoEnv\<lparr>chatTable := \<lambda>user context. Inr (Some ''Here: {name: Ali} ok'')\<rparr>) ''hi''
     = Inr \<lparr>entities = [(''raw'', JStr ''Here: {name: Ali} ok'')], originalText = ''hi''\<rparr>"
proof -
  let ?env = "demoEnv\<lparr>chatTable := \<lambda>user context. Inr (Some ''Here: {name: Ali} ok'')\<rparr>"
  let ?g = "\<lparr>response = ''Here: {name: Ali} ok'', gen_language = ''en''\<rparr>"
  have g: "generateResponse ?env (extractPrompt ''hi'') ''en'' emptyContext = Inr ?g"
    by (simp add: generateResponse_def)
  have m: "matchBraces (response ?g) = Some ''{name: Ali}''"
    by (simp add: matchBraces_def)
  have p: "JSON_parse ?env ''{name: Ali}'' = None"
    by (simp add: demoEnv_def demoJSON_def)
  from extractEntities_fallback [of ?env "''hi''" _ ?g] g
  obtain r where r: "extractEntities ?env ''hi'' = Inr r" "originalText r = ''hi''"
    and raw: "\<forall>j. matchBraces (response ?g) = Some j \<and> JSON_parse ?env j = None
                  \<longrightarrow> entities r = [(''raw'', JStr (response ?g))]"
    by blast
  from raw m p have "entities r = [(''raw'', JStr ''Here: {name: Ali} ok'')]" by simp
  with r show ?thesis by simp
qed

subsection \<open>The document store\<close>

lemma map_of_update_doc:
  "map_of (map (\<lambda>(k, v). if k = i then (k, f v) else (k, v)) xs) k'
     = (if k' = i then map_option f (map_of xs i) else map_of xs k')"
  by (induction xs) auto

lemma map_fst_update_doc:
  "map fst (map (\<lambda>(k, v). if k = i then (k, f v) else (k, v)) xs) = map fst xs"
  by (induction xs) auto


lemma addMessage_Inr:
  assumes "addMessage env st d = (st', Inr i)"
  shows "messages st' = messages st @ [(i, d)]" "leads st' = leads st"
    "writes st' = writes st @ [Created ''messages'' i]"
    "map_of (messages st) i = None" "map_of (messages st') i = Some d"
    "storeRejects env (AddTo ''messages'') = None"
    "versions st' = versions st @ [(i, d)]"
  using assms by (auto simp: addMessage_def Let_def map_add_def split: option.splits if_splits)

lemma addLead_Inl: "addLead env st d = (st', Inl e) \<Longrightarrow> st' = st"
  by (auto simp: addLead_def Let_def split: option.splits if_splits)

lemma addLead_Inr:
  assumes "addLead env st d = (st', Inr i)"
  shows "leads st' = leads st @ [(i, d)]" "messages st' = messages st"
    "writes st' = writes st @ [Created ''leads'' i]"
    "map_of (leads st') i = Some d"
    "versions st' = versions st"
  using assms by (auto simp: addLead_def Let_def map_add_def split: option.splits if_splits)


lemma updateMessage_Inr:
  assumes "updateMessage env st i f = (st', Inr u)"
  shows "\<exists>d. map_of (messages st) i = Some d \<and> map_of (messages st') i = Some (f d)"
    "leads st' = leads st"
    "writes st' = writes st @ [Updated ''messages'' i]"
    "map fst (messages st') = map fst (messages st)"
    "storeRejects env (UpdateIn ''messages'' i) = None"
    "\<exists>d. map_of (messages st) i = Some d \<and> versions st' = versions st @ [(i, f d)]"
  using assms
  by (auto simp: updateMessage_def map_of_update_doc map_fst_update_doc split: option.splits)

lemma createLead_cases:
  assumes "createLeadFromMessage env st org mid e ph = (st', lid)"
  shows "(lid = None \<and> st' = st)
       \<or> (\<exists>i. lid = Some i \<and> leads st' = leads st @ [(i, leadData env org mid e ph)]
              \<and> messages st' = messages st
              \<and> writes st' = writes st @ [Created ''leads'' i]
              \<and> versions st' = versions st)"
proof (cases "addLead env st (leadData env org mid e ph)")
  case (Pair s res)
  show ?thesis
  proof (cases res)
    case (Inl err)
    with Pair assms addLead_Inl [of env st _ s err] show ?thesis
      by (simp add: createLeadFromMessage_def)
  next
    case (Inr i)
    with Pair assms addLead_Inr [of env st _ s i] show ?thesis
      by (simp add: createLeadFromMessage_def)
  qed
qed

subsection \<open>Leads\<close>

text \<open>
  Claim C10. When none of the six scored fields of the entity record is present (none
  holds a truthy value), as in the record \<^verbatim>\<open>{raw: reply}\<close>, a lead that
  \<open>createLeadFromMessage\<close> creates has score 50, status \<^verbatim>\<open>new\<close>, customer name
  \<^verbatim>\<open>Unknown\<close> and the sender's address as its phone.
\<close>

theorem createLead_unscored:
  assumes "\<not> truthy (getProp e ''name'')" and "\<not> truthy (getProp e ''phone'')"
    and "\<not> truthy (getProp e ''email'')" and "\<not> truthy (getProp e ''date'')"
    and "\<not> truthy (getProp e ''time'')" and "\<not> truthy (getProp e ''service_type'')"
    and "createLeadFromMessage env st org mid e ph = (st', Some i)"
  shows "\<exists>l. map_of (leads st') i = Some l \<and> score l = 50 \<and> status l = ''new''
           \<and> customerName l = JStr ''Unknown'' \<and> phone l = JStr ph
           \<and> sourceMessageId l = mid"
proof -
  from assms(7) have a: "addLead env st (leadData env org mid e ph) = (st', Inr i)"
    by (auto simp: createLeadFromMessage_def split: prod.splits sum.splits)
  have "map_of (leads st') i = Some (leadData env org mid e ph)"
    by (rule addLead_Inr(4) [OF a])
  moreover have "score (leadData env org mid e ph) = 50"
    using assms(1-6) by (simp add: leadData_def calculateLeadScore_def addIf_def)
  moreover have "customerName (leadData env org mid e ph) = JStr ''Unknown''"
    using assms(1) by (simp add: leadData_def or_else_def)
  moreover have "phone (leadData env org mid e ph) = JStr ph"
    using assms(2) by (simp add: leadData_def or_else_def)
  moreover have "status (leadData env org mid e ph) = ''new''"
    and "sourceMessageId (leadData env org mid e ph) = mid"
    by (simp_all add: leadData_def)
  ultimately show ?thesis by simp
qed

text \<open>The record \<^verbatim>\<open>{raw: reply}\<close>, in the empty store.\<close>

theorem createLead_unscored_witness:
  "\<exists>st' i l. createLeadFromMessage demoEnv emptyStore ''org1'' ''a''
                [(''raw'', JStr ''Sorry, {no data}'')] ''+60123456789'' = (st', Some i)
     \<and> map_of (leads st') i = Some l \<and> score l = 50 \<and> status l = ''new''
     \<and> customerName l = JStr ''Unknown'' \<and> phone l = JStr ''+60123456789''"
proof -
  let ?e = "[(''raw'', JStr ''Sorry, {no data}'')]"
  obtain st' where c: "createLeadFromMessage demoEnv emptyStore ''org1'' ''a'' ?e ''+60123456789''
      = (st', Some ''a'')"
    by (simp add: createLeadFromMessage_def addLead_def demoEnv_def emptyStore_def Let_def)
  have f: "\<not> truthy (getProp ?e ''name'')" "\<not> truthy (getProp ?e ''phone'')"
    "\<not> truthy (getProp ?e ''email'')" "\<not> truthy (getProp ?e ''date'')"
    "\<not> truthy (getProp ?e ''time'')" "\<not> truthy (getProp ?e ''service_type'')"
    by (simp_all add: getProp_def)
  from createLead_unscored [OF f c] c show ?thesis by blast
qed

subsection \<open>The pipeline\<close>

lemma exportRow_Inr: "exportRow env org r = Inr ()"
  by (simp add: exportRow_def split: option.splits)

lemma pipeline_Inr:
  assumes "pipeline env st md = (st', Inr r)"
  shows "\<exists>ir er st1 ai st2 ref lid.
    classifyIntent env (md_content md) = Inr ir
    \<and> extractEntities env (md_content md) = Inr er
    \<and> addMessage env st (newMessage env md (detectLanguage (md_content md)) ir er)
         = (st1, Inr ref)
    \<and> respond env (md_content md) (detectLanguage (md_content md)) ir = Inr ai
    \<and> leadFor env st1 md ref ir er = (st2, lid)
    \<and> updateMessage env st2 ref (completed env ai lid) = (st', Inr ())
    \<and> r = \<lparr>success = True, res_messageId = ref,
             res_language = language (detectLanguage (md_content md)),
             res_intent = intent ir, res_entities = entities er,
             res_response = ai, res_leadId = lid\<rparr>"
  using assms
  unfolding pipeline_def Let_def
  by (auto simp: exportRow_Inr split: sum.splits prod.splits)


lemma processMessage_Inr:
  "(processMessage env st md = (st', Inr r)) = (pipeline env st md = (st', Inr r))"
  by (auto simp: processMessage_def split: prod.splits sum.splits if_splits)

lemma leadFor_cases:
  assumes "leadFor env st md ref ir er = (st', lid)"
  shows "(lid = None \<and> st' = st)
       \<or> (\<exists>i. lid = Some i \<and> messages st' = messages st
              \<and> writes st' = writes st @ [Created ''leads'' i]
              \<and> versions st' = versions st)"
  using assms createLead_cases [of env st "md_organizationId md" ref "entities er" "md_from md" st' lid]
  by (auto simp: leadFor_def split: if_splits)


lemma generateResponse_sheet [simp]:
  "generateResponse (env\<lparr>sheetWriter := w\<rparr>) m l c = generateResponse env m l c"
  by (simp add: generateResponse_def)

lemma classifyIntent_sheet [simp]:
  "classifyIntent (env\<lparr>sheetWriter := w\<rparr>) t = classifyIntent env t"
  by (simp add: classifyIntent_def split: sum.splits)

lemma extractEntities_sheet [simp]:
  "extractEntities (env\<lparr>sheetWriter := w\<rparr>) t = extractEntities env t"
  by (simp add: extractEntities_def parseEntities_def split: sum.splits option.splits)

lemma respond_sheet [simp]:
  "respond (env\<lparr>sheetWriter := w\<rparr>) t l ir = respond env t l ir"
  by (simp add: respond_def executeActionChain_def split: sum.splits)

lemma store_calls_sheet [simp]:
  "addMessage (env\<lparr>sheetWriter := w\<rparr>) st d = addMessage env st d"
  "addLead (env\<lparr>sheetWriter := w\<rparr>) st l = addLead env st l"
  "updateMessage (env\<lparr>sheetWriter := w\<rparr>) st i f = updateMessage env st i f"
  by (simp_all add: addMessage_def addLead_def updateMessage_def Let_def split: option.splits)

lemma documents_sheet [simp]:
  "newMessage (env\<lparr>sheetWriter := w\<rparr>) md l ir er = newMessage env md l ir er"
  "completed (env\<lparr>sheetWriter := w\<rparr>) ai lid = completed env ai lid"
  "failed (env\<lparr>sheetWriter := w\<rparr>) err = failed env err"
  "leadData (env\<lparr>sheetWriter := w\<rparr>) org mid e ph = leadData env org mid e ph"
  by (simp_all add: newMessage_def completed_def failed_def leadData_def fun_eq_iff)

lemma leadFor_sheet [simp]:
  "leadFor (env\<lparr>sheetWriter := w\<rparr>) st md ref ir er = leadFor env st md ref ir er"
  by (simp add: leadFor_def createLeadFromMessage_def split: prod.splits sum.splits)

lemma pipeline_sheet:
  "pipeline (env\<lparr>sheetWriter := w\<rparr>) st md = pipeline env st md"
  by (simp add: pipeline_def exportRow_Inr Let_def split: sum.splits prod.splits)

lemma processMessage_sheet:
  "processMessage (env\<lparr>sheetWriter := w\<rparr>) st md = processMessage env st md"
  by (simp add: processMessage_def pipeline_sheet split: sum.splits prod.splits)

lemma pipeline_completed:
  assumes "pipeline env st md = (st', Inr r)"
  shows "success r"
    and "\<exists>d. map_of (messages st') (res_messageId r)
               = Some (completed env (res_response r) (res_leadId r) d)
             \<and> processingStatus d = ''processing''
             \<and> msg_language d = res_language r \<and> msg_intent d = res_intent r
             \<and> msg_entities d = res_entities r"
proof -
  from pipeline_Inr [OF assms] obtain ir er st1 ai st2 ref lid where
    add: "addMessage env st (newMessage env md (detectLanguage (md_content md)) ir er)
            = (st1, Inr ref)"
    and lead: "leadFor env st1 md ref ir er = (st2, lid)"
    and upd: "updateMessage env st2 ref (completed env ai lid) = (st', Inr ())"
    and r: "r = \<lparr>success = True, res_messageId = ref,
             res_language = language (detectLanguage (md_content md)),
             res_intent = intent ir, res_entities = entities er,
             res_response = ai, res_leadId = lid\<rparr>"
    by blast
  from r show "success r" by simp
  let ?d = "newMessage env md (detectLanguage (md_content md)) ir er"
  have "map_of (messages st1) ref = Some ?d" by (rule addMessage_Inr(5) [OF add])
  moreover have "messages st2 = messages st1"
    using leadFor_cases [OF lead] by auto
  ultimately have "map_of (messages st2) ref = Some ?d" by simp
  with updateMessage_Inr(1) [OF upd]
  have "map_of (messages st') ref = Some (completed env ai lid ?d)" by auto
  moreover have "processingStatus ?d = ''processing''" "msg_language ?d = res_language r"
    "msg_intent ?d = res_intent r" "msg_entities ?d = res_entities r"
    using r by (simp_all add: newMessage_def)
  ultimately show "\<exists>d. map_of (messages st') (res_messageId r)
               = Some (completed env (res_response r) (res_leadId r) d)
             \<and> processingStatus d = ''processing''
             \<and> msg_language d = res_language r \<and> msg_intent d = res_intent r
             \<and> msg_entities d = res_entities r"
    using r by auto
qed

text \<open>A run of the example message in the empty store.\<close>

lemma demo_run:
  "processMessage demoEnv emptyStore demoMessage =
    (\<lparr>messages =
       [(''a'',
         \<lparr>organizationId = ''org1'', channelType = ''whatsapp'',
          channelId = None, direction = ''inbound'',
          sender = ''+60123456789'',
          content = ''Saya nak buat appointment Jumaat 2pm'',
          externalMessageId = Some ''msg_1700000000000'',
          msg_language = ''bm'', msg_intent = ''booking'',
          msg_entities = [], processingStatus = ''completed'',
          aiResponse = Some ''We have a slot on Friday at 2pm.'',
          leadId = Some ''aa'', error_detail = None,
          createdAt = 1700000000000, updatedAt = 1700000000000,
          processedAt = Some 1700000000000\<rparr>)],
      leads =
       [(''aa'',
         \<lparr>lead_organizationId = ''org1'', sourceMessageId = ''a'',
          customerName = JStr ''Unknown'', phone = JStr ''+60123456789'',
          email = JNull, serviceType = JNull, preferredDate = JNull,
          preferredTime = JNull, status = ''new'', score = 50,
          notes_intent = JStr ''unknown'', lead_createdAt = 1700000000000,
          lead_updatedAt = 1700000000000\<rparr>)],
      generated = 2,
      writes = [Created ''messages'' ''a'', Created ''leads'' ''aa'', Updated ''messages'' ''a''],
      versions =
       [(''a'',
         \<lparr>organizationId = ''org1'', channelType = ''whatsapp'',
          channelId = None, direction = ''inbound'',
          sender = ''+60123456789'',
          content = ''Saya nak buat appointment Jumaat 2pm'',
          externalMessageId = Some ''msg_1700000000000'',
          msg_language = ''bm'', msg_intent = ''booking'',
          msg_entities = [], processingStatus = ''processing'',
          aiResponse = None, leadId = None, error_detail = None,
          createdAt = 1700000000000, updatedAt = 1700000000000,
          processedAt = None\<rparr>),
        (''a'',
         \<lparr>organizationId = ''org1'', channelType = ''whatsapp'',
          channelId = None, direction = ''inbound'',
          sender = ''+60123456789'',
          content = ''Saya nak buat appointment Jumaat 2pm'',
          externalMessageId = Some ''msg_1700000000000'',
          msg_language = ''bm'', msg_intent = ''booking'',
          msg_entities = [], processingStatus = ''completed'',
          aiResponse = Some ''We have a slot on Friday at 2pm.'',
          leadId = Some ''aa'', error_detail = None,
          createdAt = 1700000000000, updatedAt = 1700000000000,
          processedAt = Some 1700000000000\<rparr>)]\<rparr>,
     Inr \<lparr>success = True, res_messageId = ''a'', res_language = ''bm'',
          res_intent = ''booking'', res_entities = [],
          res_response = Some ''We have a slot on Friday at 2pm.'',
          res_leadId = Some ''aa''\<rparr>)"
  by code_simp

text \<open>
  Claim C6. An error of the spreadsheet export is caught inside the pipeline: what
  \<open>processMessage\<close> returns and leaves in the store does not depend on what the export
  does. So a run that succeeds when the export works also succeeds, with the same
  result, when the export throws: it returns \<^verbatim>\<open>success: true\<close> with the identifier of
  the message, and the message is \<^verbatim>\<open>completed\<close>.
\<close>

theorem export_failure_contained:
  "processMessage (env\<lparr>sheetWriter := w\<rparr>) st md = processMessage env st md
   \<and> (processMessage (env\<lparr>sheetWriter := \<lambda>org row. None\<rparr>) st md = (st', Inr r) \<longrightarrow>
        processMessage (env\<lparr>sheetWriter := \<lambda>org row. Some sheetError\<rparr>) st md = (st', Inr r)
        \<and> success r
        \<and> (\<exists>d. map_of (messages st') (res_messageId r) = Some d
              \<and> processingStatus d = ''completed''
              \<and> aiResponse d = res_response r \<and> leadId d = res_leadId r))"
proof (intro conjI impI)
  show "processMessage (env\<lparr>sheetWriter := w\<rparr>) st md = processMessage env st md"
    by (rule processMessage_sheet)
next
  assume ok: "processMessage (env\<lparr>sheetWriter := \<lambda>org row. None\<rparr>) st md = (st', Inr r)"
  then have run: "processMessage env st md = (st', Inr r)"
    by (simp add: processMessage_sheet)
  then show "processMessage (env\<lparr>sheetWriter := \<lambda>org row. Some sheetError\<rparr>) st md = (st', Inr r)"
    by (simp add: processMessage_sheet)
  from run have p: "pipeline env st md = (st', Inr r)"
    by (simp add: processMessage_Inr)
  show "success r" by (rule pipeline_completed(1) [OF p])
  from pipeline_completed(2) [OF p] obtain d where
    "map_of (messages st') (res_messageId r) = Some (completed env (res_response r) (res_leadId r) d)"
    by blast
  then show "\<exists>d. map_of (messages st') (res_messageId r) = Some d
              \<and> processingStatus d = ''completed''
              \<and> aiResponse d = res_response r \<and> leadId d = res_leadId r"
    by (simp add: completed_def)
qed

text \<open>The example message, with an export that always throws.\<close>

theorem export_failure_contained_witness:
  "\<exists>st' r. processMessage (demoEnv\<lparr>sheetWriter := \<lambda>org row. Some ''quota exceeded''\<rparr>)
              emptyStore demoMessage = (st', Inr r)
     \<and> success r \<and> res_messageId r = ''a''
     \<and> (\<exists>d. map_of (messages st') ''a'' = Some d \<and> processingStatus d = ''completed'')"
proof -
  obtain st' r where run: "processMessage demoEnv emptyStore demoMessage = (st', Inr r)"
    and i: "res_messageId r = ''a''"
    by (simp add: demo_run)
  from export_failure_contained [where env = demoEnv and w = "\<lambda>org row. None"
      and st = emptyStore and md = demoMessage] run
  have "processMessage (demoEnv\<lparr>sheetWriter := \<lambda>org row. None\<rparr>) emptyStore demoMessage
          = (st', Inr r)"
    by simp
  with export_failure_contained [where env = demoEnv and st = emptyStore and md = demoMessage
      and st' = st' and r = r and sheetError = "''quota exceeded''"] i
  show ?thesis by auto
qed

subsection \<open>The writes of a run\<close>








subsection \<open>A failure of the AI service\<close>

text \<open>
  Claim C1 at a failing classification, and at a failing extraction: the error is
  thrown again, but the store is as it was. No message was saved before step 4, and the
  handler's update, addressed to the caller's \<^verbatim>\<open>messageId\<close>, finds no document; so no
  message is marked \<^verbatim>\<open>failed\<close>. When the store does hold a document under that
  identifier, it is that document, a message of another run, that is marked.
\<close>

theorem processMessage_failure_unmarked:
  "processMessage (demoEnv\<lparr>chatTable := \<lambda>user context. Inl ''JamAI unavailable''\<rparr>)
     emptyStore demoMessage = (emptyStore, Inl ''JamAI unavailable'')
   \<and> processMessage
       (demoEnv\<lparr>chatTable := \<lambda>user context.
           if user = extractPrompt (md_content demoMessage) then Inl ''JamAI unavailable''
           else Inr (Some ''booking'')\<rparr>)
       emptyStore demoMessage = (emptyStore, Inl ''JamAI unavailable'')
   \<and> processMessage (demoEnv\<lparr>chatTable := \<lambda>user context. Inl ''JamAI unavailable''\<rparr>)
       (emptyStore\<lparr>messages :=
          [(''msg_1700000000000'', demoDoc ''org2'' ''completed'' 1699990000001)]\<rparr>)
       demoMessage
     = (emptyStore\<lparr>messages :=
          [(''msg_1700000000000'',
            (demoDoc ''org2'' ''completed'' 1699990000001)
              \<lparr>processingStatus := ''failed'', error_detail := Some ''JamAI unavailable'',
               updatedAt := 1700000000000\<rparr>)],
         writes := [Updated ''messages'' ''msg_1700000000000''],
         versions :=
          [(''msg_1700000000000'',
            (demoDoc ''org2'' ''completed'' 1699990000001)
              \<lparr>processingStatus := ''failed'', error_detail := Some ''JamAI unavailable'',
               updatedAt := 1700000000000\<rparr>)]\<rparr>,
        Inl ''JamAI unavailable'')"
  by code_simp

subsection \<open>Batches\<close>

lemma batchLoop_snd:
  "snd (batchLoop env st ms res) = res @ snd (batchLoop env st ms [])"
proof (induction ms arbitrary: st res)
  case Nil
  show ?case by simp
next
  case (Cons m ms)
  obtain st' out where p: "processMessage env st m = (st', out)" by (cases "processMessage env st m")
  show ?case
  proof (cases out)
    case (Inl e)
    with p Cons.IH [of st' "res @ [Failed e (md_messageId m)]"]
      Cons.IH [of st' "[Failed e (md_messageId m)]"]
    show ?thesis by simp
  next
    case (Inr r)
    with p Cons.IH [of st' "res @ [Processed r]"] Cons.IH [of st' "[Processed r]"]
    show ?thesis by simp
  qed
qed

lemma batchLoop_fst:
  "fst (batchLoop env st ms res) = fst (batchLoop env st ms [])"
proof (induction ms arbitrary: st res)
  case Nil
  show ?case by simp
next
  case (Cons m ms)
  obtain st' out where p: "processMessage env st m = (st', out)" by (cases "processMessage env st m")
  show ?case
  proof (cases out)
    case (Inl e)
    with p Cons.IH [of st' "res @ [Failed e (md_messageId m)]"]
      Cons.IH [of st' "[Failed e (md_messageId m)]"]
    show ?thesis by simp
  next
    case (Inr r)
    with p Cons.IH [of st' "res @ [Processed r]"] Cons.IH [of st' "[Processed r]"]
    show ?thesis by simp
  qed
qed

lemma batchLoop_Cons:
  "snd (batchLoop env st (m # ms) [])
     = (case snd (processMessage env st m) of
          Inr r \<Rightarrow> Processed r | Inl e \<Rightarrow> Failed e (md_messageId m))
       # snd (batchLoop env (fst (processMessage env st m)) ms [])"
proof -
  obtain st' out where p: "processMessage env st m = (st', out)" by (cases "processMessage env st m")
  show ?thesis
  proof (cases out)
    case (Inl e)
    with p batchLoop_snd [of env st' ms "[Failed e (md_messageId m)]"] show ?thesis by simp
  next
    case (Inr r)
    with p batchLoop_snd [of env st' ms "[Processed r]"] show ?thesis by simp
  qed
qed

lemma batchLoop_fst_Cons:
  "fst (batchLoop env st (m # ms) []) = fst (batchLoop env (fst (processMessage env st m)) ms [])"
proof -
  obtain st' out where p: "processMessage env st m = (st', out)" by (cases "processMessage env st m")
  show ?thesis
  proof (cases out)
    case (Inl e)
    with p batchLoop_fst [of env st' ms "[Failed e (md_messageId m)]"] show ?thesis by simp
  next
    case (Inr r)
    with p batchLoop_fst [of env st' ms "[Processed r]"] show ?thesis by simp
  qed
qed

lemma batchLoop_length: "length (snd (batchLoop env st ms [])) = length ms"
  by (induction ms arbitrary: st) (simp_all add: batchLoop_Cons del: batchLoop.simps(2))

lemma batchLoop_nth:
  "i < length ms \<Longrightarrow>
   snd (batchLoop env st ms []) ! i
     = (case snd (processMessage env (fst (batchLoop env st (take i ms) [])) (ms ! i)) of
          Inr r \<Rightarrow> Processed r | Inl e \<Rightarrow> Failed e (md_messageId (ms ! i)))"
proof (induction ms arbitrary: st i)
  case Nil
  then show ?case by simp
next
  case (Cons m ms)
  show ?case
  proof (cases i)
    case 0
    then show ?thesis by (simp add: batchLoop_Cons del: batchLoop.simps(2) split: sum.splits)
  next
    case (Suc k)
    with Cons.prems have "k < length ms" by simp
    from Cons.IH [OF this, of "fst (processMessage env st m)"] Suc
    show ?thesis
      by (simp add: batchLoop_Cons batchLoop_fst_Cons del: batchLoop.simps(2) split: sum.splits)
  qed
qed

lemma processMessage_success:
  "processMessage env st m = (st', Inr r) \<Longrightarrow> success r"
  by (simp add: processMessage_Inr pipeline_completed(1))

lemma batchLoop_entries:
  "entry_success e = (case e of Processed r \<Rightarrow> True | Failed err i \<Rightarrow> False)"
  if "e \<in> set (snd (batchLoop env st ms []))"
  using that
proof (induction ms arbitrary: st)
  case Nil
  then show ?case by simp
next
  case (Cons m ms)
  obtain st' out where p: "processMessage env st m = (st', out)" by (cases "processMessage env st m")
  from Cons.prems p consider
    "e = (case out of Inr r \<Rightarrow> Processed r | Inl err \<Rightarrow> Failed err (md_messageId m))"
    | "e \<in> set (snd (batchLoop env st' ms []))"
    by (auto simp: batchLoop_Cons simp del: batchLoop.simps(2))
  then show ?case
  proof cases
    case 1
    with p processMessage_success [of env st m st'] show ?thesis
      by (cases out) auto
  next
    case 2
    then show ?thesis by (rule Cons.IH)
  qed
qed

lemma batch_store:
  "fst (batchLoop env st ms []) = foldl (\<lambda>x m. fst (processMessage env x m)) st ms"
  by (induction ms arbitrary: st) (simp_all add: batchLoop_fst_Cons del: batchLoop.simps(2))

text \<open>
  Claim C7. \<open>batchProcessMessages\<close> runs the messages one at a time in their order, each
  in the store that the runs of the messages before it have left: the final store is the
  initial one threaded through \<open>processMessage\<close> on every message in turn, and entry
  \<open>i\<close> of the results is the outcome of \<open>processMessage\<close> on message \<open>i\<close> in the
  store threaded through the first \<open>i\<close> messages, a failure being recorded with its
  error and the caller's message id and the next message still run. The summary has one
  entry for each message; \<open>total\<close> is the number of messages, \<open>processed\<close> the number
  of successes and \<open>failed\<close> the number of failures.
\<close>

theorem batchProcessMessages_summary:
  "batchProcessMessages env st msgs = (st', s) \<longrightarrow>
     st' = foldl (\<lambda>x m. fst (processMessage env x m)) st msgs
     \<and> batch_success s \<and> total s = length msgs \<and> length (results s) = length msgs
     \<and> processed s
         = length (filter (\<lambda>e. case e of Processed r \<Rightarrow> True | Failed err i \<Rightarrow> False) (results s))
     \<and> failed_count s
         = length (filter (\<lambda>e. case e of Processed r \<Rightarrow> False | Failed err i \<Rightarrow> True) (results s))
     \<and> processed s + failed_count s = length msgs
     \<and> (\<forall>i<length msgs.
           results s ! i
             = (case snd (processMessage env
                           (foldl (\<lambda>x m. fst (processMessage env x m)) st (take i msgs))
                           (msgs ! i)) of
                  Inr r \<Rightarrow> Processed r
                | Inl e \<Rightarrow> Failed e (md_messageId (msgs ! i))))"
proof
  assume b: "batchProcessMessages env st msgs = (st', s)"
  let ?res = "snd (batchLoop env st msgs [])"
  from b have s: "s = \<lparr>batch_success = True, total = length msgs,
                       processed = length (filter (\<lambda>r. entry_success r) ?res),
                       failed_count = length (filter (\<lambda>r. \<not> entry_success r) ?res),
                       results = ?res\<rparr>"
    by (auto simp: batchProcessMessages_def split: prod.splits)
  from b have "st' = fst (batchLoop env st msgs [])"
    by (auto simp: batchProcessMessages_def split: prod.splits)
  then have st': "st' = foldl (\<lambda>x m. fst (processMessage env x m)) st msgs"
    by (simp only: batch_store)
  have len: "length ?res = length msgs" by (rule batchLoop_length)
  have f1: "filter (\<lambda>r. entry_success r) ?res
              = filter (\<lambda>e. case e of Processed r \<Rightarrow> True | Failed err i \<Rightarrow> False) ?res"
    by (rule filter_cong) (simp_all add: batchLoop_entries)
  have f2: "filter (\<lambda>r. \<not> entry_success r) ?res
              = filter (\<lambda>e. case e of Processed r \<Rightarrow> False | Failed err i \<Rightarrow> True) ?res"
    by (rule filter_cong) (auto simp: batchLoop_entries split: batch_entry.splits)
  have sum: "length (filter (\<lambda>r. entry_success r) ?res)
               + length (filter (\<lambda>r. \<not> entry_success r) ?res) = length ?res"
    by (rule sum_length_filter_compl)
  have nth: "\<forall>i<length msgs.
           ?res ! i
             = (case snd (processMessage env
                           (foldl (\<lambda>x m. fst (processMessage env x m)) st (take i msgs))
                           (msgs ! i)) of
                  Inr r \<Rightarrow> Processed r
                | Inl e \<Rightarrow> Failed e (md_messageId (msgs ! i)))"
    by (simp add: batchLoop_nth batch_store)
  show "st' = foldl (\<lambda>x m. fst (processMessage env x m)) st msgs
     \<and> batch_success s \<and> total s = length msgs \<and> length (results s) = length msgs
     \<and> processed s
         = length (filter (\<lambda>e. case e of Processed r \<Rightarrow> True | Failed err i \<Rightarrow> False) (results s))
     \<and> failed_count s
         = length (filter (\<lambda>e. case e of Processed r \<Rightarrow> False | Failed err i \<Rightarrow> True) (results s))
     \<and> processed s + failed_count s = length msgs
     \<and> (\<forall>i<length msgs.
           results s ! i
             = (case snd (processMessage env
                           (foldl (\<lambda>x m. fst (processMessage env x m)) st (take i msgs))
                           (msgs ! i)) of
                  Inr r \<Rightarrow> Processed r
                | Inl e \<Rightarrow> Failed e (md_messageId (msgs ! i))))"
    unfolding s using st' len f1 f2 sum nth by simp
qed

text \<open>
  A batch of three messages, of which the second makes the AI service throw: the third
  is still run, in the store that holds the document of the first.
\<close>

lemma demo_batch:
  "snd (batchProcessMessages
     (demoEnv\<lparr>chatTable := \<lambda>user context.
         if str_includes user ''crash'' then Inl ''JamAI unavailable''
         else Inr (Some ''general'')\<rparr>)
     emptyStore
     [demoMessage, demoMessage\<lparr>md_content := ''please crash''\<rparr>, demoMessage])
   = \<lparr>batch_success = True, total = 3, processed = 2, failed_count = 1,
      results =
        [Processed
           \<lparr>success = True, res_messageId = ''a'', res_language = ''bm'',
            res_intent = ''general'', res_entities = [],
            res_response = Some ''general'', res_leadId = None\<rparr>,
         Failed ''JamAI unavailable'' (Some ''msg_1700000000000''),
         Processed
           \<lparr>success = True, res_messageId = ''aa'', res_language = ''bm'',
            res_intent = ''general'', res_entities = [],
            res_response = Some ''general'', res_leadId = None\<rparr>]\<rparr>
   \<and> map (\<lambda>(i, d). (i, processingStatus d))
        (messages (fst (batchProcessMessages
          (demoEnv\<lparr>chatTable := \<lambda>user context.
             if str_includes user ''crash'' then Inl ''JamAI unavailable''
             else Inr (Some ''general'')\<rparr>)
          emptyStore
          [demoMessage, demoMessage\<lparr>md_content := ''please crash''\<rparr>, demoMessage])))
     = [(''a'', ''completed''), (''aa'', ''completed'')]"
  by code_simp

theorem batchProcessMessages_summary_witness:
  "\<exists>st' s. batchProcessMessages
       (demoEnv\<lparr>chatTable := \<lambda>user context.
           if str_includes user ''crash'' then Inl ''JamAI unavailable''
           else Inr (Some ''general'')\<rparr>)
       emptyStore
       [demoMessage, demoMessage\<lparr>md_content := ''please crash''\<rparr>, demoMessage] = (st', s)
     \<and> st' = foldl (\<lambda>x m. fst (processMessage
           (demoEnv\<lparr>chatTable := \<lambda>user context.
              if str_includes user ''crash'' then Inl ''JamAI unavailable''
              else Inr (Some ''general'')\<rparr>) x m))
          emptyStore [demoMessage, demoMessage\<lparr>md_content := ''please crash''\<rparr>, demoMessage]
     \<and> map (\<lambda>(i, d). (i, processingStatus d)) (messages st')
         = [(''a'', ''completed''), (''aa'', ''completed'')]
     \<and> total s = 3 \<and> length (results s) = 3 \<and> processed s = 2 \<and> failed_count s = 1
     \<and> (\<exists>r. results s ! 0 = Processed r \<and> res_messageId r = ''a'')
     \<and> results s ! 1 = Failed ''JamAI unavailable'' (Some ''msg_1700000000000'')
     \<and> (\<exists>r. results s ! 2 = Processed r \<and> res_messageId r = ''aa'')"
proof -
  let ?env = "demoEnv\<lparr>chatTable := \<lambda>user context.
           if str_includes user ''crash'' then Inl ''JamAI unavailable''
           else Inr (Some ''general'')\<rparr>"
  let ?ms = "[demoMessage, demoMessage\<lparr>md_content := ''please crash''\<rparr>, demoMessage]"
  obtain st' s where b: "batchProcessMessages ?env emptyStore ?ms = (st', s)"
    by (cases "batchProcessMessages ?env emptyStore ?ms")
  note T = batchProcessMessages_summary [where env = ?env and st = emptyStore and msgs = ?ms
      and st' = st' and s = s, THEN mp, OF b]
  have t: "st' = foldl (\<lambda>x m. fst (processMessage ?env x m)) emptyStore ?ms"
    by (rule T [THEN conjunct1])
  have n: "total s = length ?ms"
    by (rule T [THEN conjunct2, THEN conjunct2, THEN conjunct1])
  from b demo_batch have s: "s = \<lparr>batch_success = True, total = 3, processed = 2, failed_count = 1,
      results =
        [Processed
           \<lparr>success = True, res_messageId = ''a'', res_language = ''bm'',
            res_intent = ''general'', res_entities = [],
            res_response = Some ''general'', res_leadId = None\<rparr>,
         Failed ''JamAI unavailable'' (Some ''msg_1700000000000''),
         Processed
           \<lparr>success = True, res_messageId = ''aa'', res_language = ''bm'',
            res_intent = ''general'', res_entities = [],
            res_response = Some ''general'', res_leadId = None\<rparr>]\<rparr>"
    and m: "map (\<lambda>(i, d). (i, processingStatus d)) (messages st')
         = [(''a'', ''completed''), (''aa'', ''completed'')]"
    by simp_all
  have r: "total s = 3 \<and> length (results s) = 3 \<and> processed s = 2 \<and> failed_count s = 1
     \<and> (\<exists>r. results s ! 0 = Processed r \<and> res_messageId r = ''a'')
     \<and> results s ! 1 = Failed ''JamAI unavailable'' (Some ''msg_1700000000000'')
     \<and> (\<exists>r. results s ! 2 = Processed r \<and> res_messageId r = ''aa'')"
    using n unfolding s by simp
  show ?thesis
    by (rule exI [of _ st'], rule exI [of _ s])
       (rule conjI, rule b, rule conjI, rule t, rule conjI, rule m, rule r)
qed

subsection \<open>Dates\<close>

text \<open>
  The calendar functions meet their definitions in ECMA-262: the year of a day is the
  year in which the day lies, a year has as many days as lie between its first day and
  the next year's, and a month has between 28 and 31 days.
\<close>

lemma div_succ:
  fixes x k :: int
  assumes "0 < k"
  shows "(x + 1) div k = (if (x + 1) mod k = 0 then x div k + 1 else x div k)"
proof -
  define q where "q = x div k"
  define r where "r = x mod k"
  have x: "x = k * q + r" by (simp add: q_def r_def)
  have r: "0 \<le> r" "r < k" using assms by (simp_all add: r_def)
  show ?thesis
  proof (cases "r + 1 = k")
    case True
    have "x + 1 = k * q + (r + 1)" using x by simp
    also have "\<dots> = k * q + k" using True by simp
    also have "\<dots> = k * (q + 1) + 0" by (simp add: distrib_left)
    finally have e: "x + 1 = k * (q + 1) + 0" .
    have k: "(0::int) \<le> 0" "0 < k" using assms by simp_all
    have "(x + 1) div k = q + 1" by (rule int_div_pos_eq [OF e k])
    moreover have "(x + 1) mod k = 0" by (rule int_mod_pos_eq [OF e k])
    ultimately show ?thesis by (simp add: q_def)
  next
    case False
    have e: "x + 1 = k * q + (r + 1)" using x by simp
    have b: "0 \<le> r + 1" "r + 1 < k" using r False by simp_all
    have "(x + 1) div k = q" by (rule int_div_pos_eq [OF e b])
    moreover have "(x + 1) mod k = r + 1" by (rule int_mod_pos_eq [OF e b])
    ultimately show ?thesis using r by (simp add: q_def)
  qed
qed

lemma mod_shift: "((y::int) - k * c) mod k = y mod k"
proof -
  have "(y - k * c) mod k = (y + k * (- c)) mod k" by simp
  also have "\<dots> = y mod k" by (rule mod_mult_self2)
  finally show ?thesis .
qed

lemma DayFromYear_step: "DayFromYear (y + 1) - DayFromYear y = DaysInYear y"
proof -
  have s4: "(y + 1 - 1969) div 4 = (if y mod 4 = 0 then (y - 1969) div 4 + 1 else (y - 1969) div 4)"
    using div_succ [of 4 "y - 1969"] mod_shift [of y 4 492] by (simp add: algebra_simps)
  have s100: "(y + 1 - 1901) div 100
      = (if y mod 100 = 0 then (y - 1901) div 100 + 1 else (y - 1901) div 100)"
    using div_succ [of 100 "y - 1901"] mod_shift [of y 100 19] by (simp add: algebra_simps)
  have s400: "(y + 1 - 1601) div 400
      = (if y mod 400 = 0 then (y - 1601) div 400 + 1 else (y - 1601) div 400)"
    using div_succ [of 400 "y - 1601"] mod_shift [of y 400 4] by (simp add: algebra_simps)
  have d1: "y mod 400 = 0 \<Longrightarrow> y mod 100 = 0"
  proof -
    assume "y mod 400 = 0"
    then have "400 dvd y" by (simp add: mod_eq_0_iff_dvd)
    then have "100 dvd y" by (rule dvd_trans [rotated]) simp
    then show ?thesis by (simp add: mod_eq_0_iff_dvd)
  qed
  have d2: "y mod 100 = 0 \<Longrightarrow> y mod 4 = 0"
  proof -
    assume "y mod 100 = 0"
    then have "100 dvd y" by (simp add: mod_eq_0_iff_dvd)
    then have "4 dvd y" by (rule dvd_trans [rotated]) simp
    then show ?thesis by (simp add: mod_eq_0_iff_dvd)
  qed
  show ?thesis
    unfolding DayFromYear_def DaysInYear_def s4 s100 s400
    using d1 d2 by (auto simp: algebra_simps)
qed

lemma div_bounds:
  fixes x k :: int
  assumes "0 < k"
  shows "k * (x div k) \<le> x" and "x < k * (x div k) + k"
proof -
  have "x = k * (x div k) + x mod k" by simp
  moreover have "0 \<le> x mod k" "x mod k < k" using assms by simp_all
  ultimately show "k * (x div k) \<le> x" and "x < k * (x div k) + k" by linarith+
qed

lemma DayFromYear_bounds:
  "146097 * (y - 1970) - 506 \<le> 400 * DayFromYear y \<and>
   400 * DayFromYear y \<le> 146097 * (y - 1970) + 589"
proof -
  define a where "a = (y - 1969) div 4"
  define b where "b = (y - 1901) div 100"
  define c where "c = (y - 1601) div 400"
  have a: "4 * a \<le> y - 1969" "y - 1969 < 4 * a + 4"
    unfolding a_def by (rule div_bounds, simp)+
  have b: "100 * b \<le> y - 1901" "y - 1901 < 100 * b + 100"
    unfolding b_def by (rule div_bounds, simp)+
  have c: "400 * c \<le> y - 1601" "y - 1601 < 400 * c + 400"
    unfolding c_def by (rule div_bounds, simp)+
  have f: "400 * DayFromYear y = 146000 * y - 287620000 + 400 * a - 400 * b + 400 * c"
    by (simp add: DayFromYear_def a_def b_def c_def)
  have la: "100 * y - 197200 \<le> 400 * a" using a(2) by simp
  have ua: "400 * a \<le> 100 * y - 196900" using a(1) by simp
  have lb: "4 * y - 8000 \<le> 400 * b" using b(2) by simp
  have ub: "400 * b \<le> 4 * y - 7604" using b(1) by simp
  have lc: "y - 2000 \<le> 400 * c" using c(2) by simp
  have uc: "400 * c \<le> y - 1601" using c(1) by simp
  have "146097 * (y - 1970) - 506 \<le> 400 * DayFromYear y"
    unfolding f using la ub lc by simp
  moreover have "400 * DayFromYear y \<le> 146097 * (y - 1970) + 589"
    unfolding f using ua lb uc by simp
  ultimately show ?thesis by simp
qed

lemma YearFromDay_bounds:
  "DayFromYear (YearFromDay d) \<le> d \<and> d < DayFromYear (YearFromDay d + 1)"
proof -
  define q where "q = (400 * d) div 146097"
  define y where "y = 1970 + q"
  have q: "146097 * q \<le> 400 * d" "400 * d < 146097 * q + 146097"
    unfolding q_def by (rule div_bounds, simp)+
  define f2 where "f2 = DayFromYear (y + 1 + 1)"
  define f0 where "f0 = DayFromYear (y - 1)"
  have "146097 * (y + 1 + 1 - 1970) - 506 \<le> 400 * f2"
    unfolding f2_def using DayFromYear_bounds [of "y + 1 + 1"] by blast
  then have "146097 * q + 146097 \<le> 400 * f2" by (simp add: y_def)
  with q(2) have "400 * d < 400 * f2" by (rule less_le_trans)
  then have hi: "d < f2" by simp
  have "400 * f0 \<le> 146097 * (y - 1 - 1970) + 589"
    unfolding f0_def using DayFromYear_bounds [of "y - 1"] by blast
  then have "400 * f0 \<le> 146097 * q" by (simp add: y_def)
  then have "400 * f0 \<le> 400 * d" using q(1) by (rule order_trans)
  then have lo: "f0 \<le> d" by simp
  have "YearFromDay d = (if DayFromYear (y + 1) \<le> d then y + 1
         else if DayFromYear y \<le> d then y else y - 1)"
    by (simp add: YearFromDay_def y_def q_def Let_def)
  with hi lo show ?thesis unfolding f2_def f0_def by auto
qed


lemma MonthFromTime_range: "0 \<le> MonthFromTime t \<and> MonthFromTime t \<le> 11"
  by (simp add: MonthFromTime_def Let_def)

lemma MakeDay_in_year:
  "0 \<le> m \<Longrightarrow> m \<le> 11 \<Longrightarrow>
   MakeDay y m d = DayFromYear y + daysBefore m (if DaysInYear y = 366 then 1 else 0) + d - 1"
  by (simp add: MakeDay_def Let_def)

lemma MakeDay_date: "MakeDay y m d = MakeDay y m 1 + d - 1"
  by (simp add: MakeDay_def Let_def)

lemma MakeDay_current:
  "MakeDay (YearFromTime t) (MonthFromTime t) d = Day t - DateFromTime t + d"
  using MonthFromTime_range [of t]
  by (simp add: MakeDay_in_year DateFromTime_def DayWithinYear_def InLeapYear_def)

lemma MakeDate_shift: "MakeDate (Day t + k) (TimeWithinDay t) = t + k * msPerDay"
proof -
  have "Day t * msPerDay + TimeWithinDay t = t"
    by (simp add: Day_def TimeWithinDay_def)
  then show ?thesis by (simp add: MakeDate_def algebra_simps)
qed

lemma DaysInYear_cases: "DaysInYear y = 365 + (if DaysInYear y = 366 then 1 else 0)"
  by (simp add: DaysInYear_def)

lemma month_length:
  assumes "0 \<le> m" "m \<le> 11"
  shows "28 \<le> MakeDay y m 1 - MakeDay y (m - 1) 1 \<and> MakeDay y m 1 - MakeDay y (m - 1) 1 \<le> 31"
proof (cases "m = 0")
  case True
  have "MakeDay y (- 1) 1 = DayFromYear (y - 1) + 334 + (if DaysInYear (y - 1) = 366 then 1 else 0)"
    by (simp add: MakeDay_def Let_def daysBefore_def)
  moreover have "MakeDay y 0 1 = DayFromYear y"
    by (simp add: MakeDay_def Let_def daysBefore_def)
  moreover have "DayFromYear y - DayFromYear (y - 1) = DaysInYear (y - 1)"
    using DayFromYear_step [of "y - 1"] by simp
  moreover note DaysInYear_cases [of "y - 1"]
  ultimately have "MakeDay y 0 1 - MakeDay y (- 1) 1 = 31" by simp
  with True show ?thesis by simp
next
  case False
  with assms have "1 \<le> m \<and> m \<le> 11" by simp
  then have m: "m = 1 \<or> m = 2 \<or> m = 3 \<or> m = 4 \<or> m = 5 \<or> m = 6 \<or> m = 7 \<or> m = 8
      \<or> m = 9 \<or> m = 10 \<or> m = 11" by presburger
  have l: "(if DaysInYear y = 366 then 1 else 0) = (0::int) \<or> (if DaysInYear y = 366 then 1 else 0) = (1::int)"
    by simp
  from m show ?thesis
    by (elim disjE) (simp_all add: MakeDay_def Let_def daysBefore_def)
qed

lemma setHours0_eq:
  assumes z: "\<And>t u. LocalTZA env t u = z"
  shows "setHours0 env t = t - (t + z) mod msPerDay"
proof -
  have "(t + z) div msPerDay * msPerDay = (t + z) - (t + z) mod msPerDay"
    by (simp add: minus_mod_eq_div_mult)
  then show ?thesis
    by (simp add: setHours0_def LocalTime_def UTC_def MakeDate_def Day_def Let_def z)
qed

lemma setDate_week:
  assumes z: "\<And>t u. LocalTZA env t u = z"
  shows "setDate env t (getDate env t - 7) = t - 7 * msPerDay"
proof -
  let ?l = "t + z"
  have "MakeDay (YearFromTime ?l) (MonthFromTime ?l) (DateFromTime ?l - 7) = Day ?l + (- 7)"
    by (simp add: MakeDay_current)
  then have "MakeDate (MakeDay (YearFromTime ?l) (MonthFromTime ?l) (DateFromTime ?l - 7))
               (TimeWithinDay ?l) = ?l + (- 7) * msPerDay"
    by (simp only: MakeDate_shift)
  then show ?thesis
    by (simp add: setDate_def getDate_def LocalTime_def UTC_def Let_def z)
qed

lemma setMonth_previous:
  assumes z: "\<And>t u. LocalTZA env t u = z"
  shows "setMonth env t (getMonth env t - 1)
     = t - (MakeDay (YearFromTime (t + z)) (MonthFromTime (t + z)) 1
            - MakeDay (YearFromTime (t + z)) (MonthFromTime (t + z) - 1) 1) * msPerDay"
proof -
  let ?l = "t + z"
  let ?Y = "YearFromTime ?l" and ?M = "MonthFromTime ?l" and ?D = "DateFromTime ?l"
  have a: "MakeDay ?Y (?M - 1) ?D = MakeDay ?Y (?M - 1) 1 + ?D - 1" by (rule MakeDay_date)
  have b: "MakeDay ?Y ?M 1 = Day ?l - ?D + 1" by (rule MakeDay_current)
  from a b have "MakeDay ?Y (?M - 1) ?D = Day ?l + (- (MakeDay ?Y ?M 1 - MakeDay ?Y (?M - 1) 1))"
    by simp
  then have "MakeDate (MakeDay ?Y (?M - 1) ?D) (TimeWithinDay ?l)
               = ?l + (- (MakeDay ?Y ?M 1 - MakeDay ?Y (?M - 1) 1)) * msPerDay"
    by (simp only: MakeDate_shift)
  then show ?thesis
    by (simp add: setMonth_def getMonth_def LocalTime_def UTC_def Let_def z algebra_simps)
qed

lemma startDate_cases:
  assumes z: "\<And>t u. LocalTZA env t u = z" and c: "clock_later env = clock env"
  shows "startDate env ''today'' = clock env - (clock env + z) mod msPerDay"
    and "startDate env ''week'' = clock env - 7 * msPerDay"
    and "startDate env ''month''
     = clock env - (MakeDay (YearFromTime (clock env + z)) (MonthFromTime (clock env + z)) 1
            - MakeDay (YearFromTime (clock env + z)) (MonthFromTime (clock env + z) - 1) 1)
         * msPerDay"
  by (simp_all add: startDate_def Let_def c setHours0_eq [OF z] setDate_week [OF z]
        setMonth_previous [OF z])

lemma startDate_default:
  "p \<noteq> ''today'' \<Longrightarrow> p \<noteq> ''month'' \<Longrightarrow> startDate env p = startDate env ''week''"
  by (simp add: startDate_def Let_def)

lemma startDate_month:
  assumes z: "\<And>t u. LocalTZA env t u = z" and c: "clock_later env = clock env"
  shows "let l = clock env + z;
       n = MakeDay (YearFromTime l) (MonthFromTime l) 1
           - MakeDay (YearFromTime l) (MonthFromTime l - 1) 1
   in 28 \<le> n \<and> n \<le> 31 \<and> startDate env ''month'' = clock env - n * msPerDay"
proof -
  have b: "0 \<le> MonthFromTime (clock env + z)" "MonthFromTime (clock env + z) \<le> 11"
    using MonthFromTime_range [of "clock env + z"] by blast+
  note n = month_length [OF b, of "YearFromTime (clock env + z)"]
  show ?thesis
    unfolding Let_def
    by (intro conjI n [THEN conjunct1] n [THEN conjunct2] startDate_cases(3) [OF z c])
qed

subsection \<open>Statistics\<close>

lemma queryMessages_filter:
  "queryMessages st org start
     = filter (\<lambda>d. organizationId d = org \<and> start \<le> createdAt d) (map snd (messages st))"
  by (simp add: queryMessages_def filter_map comp_def split_def)

lemma countKey_other: "k' \<noteq> k \<Longrightarrow> countKey env m k' k = m k"
  by (auto simp: countKey_def split: option.splits cell.splits)

lemma countKey_plain:
  assumes "k \<noteq> ''__proto__''" "k \<notin> set inheritedFunctions"
  shows "m k = None \<Longrightarrow> countKey env m k k = Some (Count 1)"
    and "m k = Some (Count c) \<Longrightarrow> countKey env m k k = Some (Count (c + 1))"
  using assms by (simp_all add: countKey_def)

lemma count_fold:
  assumes k: "k \<noteq> ''__proto__''" "k \<notin> set inheritedFunctions"
  shows "m0 k = None \<Longrightarrow>
         foldl (\<lambda>m d. if P d then countKey env m (key d) else m) m0 ms k
           = (let n = length (filter (\<lambda>d. P d \<and> key d = k) ms)
              in if n = 0 then None else Some (Count n))"
    and "m0 k = Some (Count c) \<Longrightarrow>
         foldl (\<lambda>m d. if P d then countKey env m (key d) else m) m0 ms k
           = Some (Count (c + length (filter (\<lambda>d. P d \<and> key d = k) ms)))"
proof (induction ms arbitrary: m0 c)
  case Nil
  { case 1 then show ?case by simp }
  { case 2 then show ?case by simp }
next
  case (Cons d ms)
  { case 1
    show ?case
    proof (cases "P d \<and> key d = k")
      case True
      with 1 have "countKey env m0 (key d) k = Some (Count 1)"
        using countKey_plain(1) [OF k] by simp
      from Cons.IH(2) [of "countKey env m0 (key d)" 1, OF this] True show ?thesis by simp
    next
      case False
      with 1 have "(if P d then countKey env m0 (key d) else m0) k = None"
        by (auto simp: countKey_other)
      from Cons.IH(1) [of "if P d then countKey env m0 (key d) else m0", OF this] False
      show ?thesis by auto
    qed }
  { case 2
    show ?case
    proof (cases "P d \<and> key d = k")
      case True
      with 2 have "countKey env m0 (key d) k = Some (Count (c + 1))"
        using countKey_plain(2) [OF k] by simp
      from Cons.IH(2) [of "countKey env m0 (key d)" "c + 1", OF this] True show ?thesis by simp
    next
      case False
      with 2 have "(if P d then countKey env m0 (key d) else m0) k = Some (Count c)"
        by (auto simp: countKey_other)
      from Cons.IH(2) [of "if P d then countKey env m0 (key d) else m0" c, OF this] False
      show ?thesis by auto
    qed }
qed

lemma tally_fields:
  "byStatus (tally env s d) = countKey env (byStatus s) (processingStatus d)"
  "byIntent (tally env s d)
     = (if msg_intent d \<noteq> [] then countKey env (byIntent s) (msg_intent d) else byIntent s)"
  "byLanguage (tally env s d)
     = (if msg_language d \<noteq> [] then countKey env (byLanguage s) (msg_language d)
        else byLanguage s)"
  "byChannel (tally env s d) = countKey env (byChannel s) (channelType d)"
  "stats_total (tally env s d) = stats_total s"
  "averageProcessingTime (tally env s d) = averageProcessingTime s"
  by (simp_all add: tally_def Let_def)

lemma foldl_tally:
  "byStatus (foldl (tally env) s ms)
     = foldl (\<lambda>m d. if True then countKey env m (processingStatus d) else m) (byStatus s) ms"
  "byIntent (foldl (tally env) s ms)
     = foldl (\<lambda>m d. if msg_intent d \<noteq> [] then countKey env m (msg_intent d) else m)
         (byIntent s) ms"
  "byLanguage (foldl (tally env) s ms)
     = foldl (\<lambda>m d. if msg_language d \<noteq> [] then countKey env m (msg_language d) else m)
         (byLanguage s) ms"
  "byChannel (foldl (tally env) s ms)
     = foldl (\<lambda>m d. if True then countKey env m (channelType d) else m) (byChannel s) ms"
  "stats_total (foldl (tally env) s ms) = stats_total s"
  "averageProcessingTime (foldl (tally env) s ms) = averageProcessingTime s"
  by (induction ms arbitrary: s) (simp_all add: tally_fields)

lemma filter_nonempty_key:
  "filter (\<lambda>d. g d \<noteq> [] \<and> g d = k) ms = (if k = [] then [] else filter (\<lambda>d. g d = k) ms)"
  by (induction ms) auto

lemma stats_counts:
  fixes ms :: "message list"
  defines "s0 \<equiv> \<lparr>stats_total = length ms, byStatus = Map.empty, byIntent = Map.empty,
      byLanguage = Map.empty, byChannel = Map.empty, averageProcessingTime = 0\<rparr>"
  assumes k: "k \<noteq> ''__proto__''" "k \<notin> set inheritedFunctions"
  shows "stats_total (foldl (tally env) s0 ms) = length ms"
    and "byStatus (foldl (tally env) s0 ms) k
      = (let n = length (filter (\<lambda>d. processingStatus d = k) ms)
         in if n = 0 then None else Some (Count n))"
    and "byChannel (foldl (tally env) s0 ms) k
      = (let n = length (filter (\<lambda>d. channelType d = k) ms)
         in if n = 0 then None else Some (Count n))"
    and "byIntent (foldl (tally env) s0 ms) k
      = (if k = [] then None
         else let n = length (filter (\<lambda>d. msg_intent d = k) ms)
              in if n = 0 then None else Some (Count n))"
    and "byLanguage (foldl (tally env) s0 ms) k
      = (if k = [] then None
         else let n = length (filter (\<lambda>d. msg_language d = k) ms)
              in if n = 0 then None else Some (Count n))"
    and "averageProcessingTime (foldl (tally env) s0 ms) = 0"
proof -
  note cf = count_fold(1) [OF k, where ?m0.0 = Map.empty and env = env and ms = ms]
  show "stats_total (foldl (tally env) s0 ms) = length ms"
    by (simp add: foldl_tally(5) s0_def)
  show "byStatus (foldl (tally env) s0 ms) k
      = (let n = length (filter (\<lambda>d. processingStatus d = k) ms)
         in if n = 0 then None else Some (Count n))"
    using cf [of "\<lambda>d. True" processingStatus] by (simp add: foldl_tally(1) s0_def)
  show "byChannel (foldl (tally env) s0 ms) k
      = (let n = length (filter (\<lambda>d. channelType d = k) ms)
         in if n = 0 then None else Some (Count n))"
    using cf [of "\<lambda>d. True" channelType] by (simp add: foldl_tally(4) s0_def)
  show "byIntent (foldl (tally env) s0 ms) k
      = (if k = [] then None
         else let n = length (filter (\<lambda>d. msg_intent d = k) ms)
              in if n = 0 then None else Some (Count n))"
    using cf [of "\<lambda>d. msg_intent d \<noteq> []" msg_intent]
    by (simp add: foldl_tally(2) filter_nonempty_key s0_def)
  show "byLanguage (foldl (tally env) s0 ms) k
      = (if k = [] then None
         else let n = length (filter (\<lambda>d. msg_language d = k) ms)
              in if n = 0 then None else Some (Count n))"
    using cf [of "\<lambda>d. msg_language d \<noteq> []" msg_language]
    by (simp add: foldl_tally(3) filter_nonempty_key s0_def)
  show "averageProcessingTime (foldl (tally env) s0 ms) = 0"
    by (simp add: foldl_tally(6) s0_def)
qed


lemma stats_run:
  assumes ok: "storeRejects env (QueryOf ''messages'') = None"
  shows "getProcessingStats env st org po
     = Inr \<lparr>stats_success = True,
            period = (case po of None \<Rightarrow> ''week'' | Some q' \<Rightarrow> q'),
            stats = foldl (tally env)
               \<lparr>stats_total = length (queryMessages st org
                    (startDate env (case po of None \<Rightarrow> ''week'' | Some q' \<Rightarrow> q'))),
                byStatus = Map.empty, byIntent = Map.empty, byLanguage = Map.empty,
                byChannel = Map.empty, averageProcessingTime = 0\<rparr>
               (queryMessages st org
                    (startDate env (case po of None \<Rightarrow> ''week'' | Some q' \<Rightarrow> q')))\<rparr>"
  using ok by (simp add: getProcessingStats_def Let_def)

text \<open>
  When the store answers the query, the total is the number of messages of the
  organization created at or after the start, and under every name that
  \<^verbatim>\<open>Object.prototype\<close> does not have, the four mappings count those messages by status, by
  channel, by intent and by language (a message with an empty intent or language is not
  counted there); such a name that no message has is absent.
\<close>

lemma stats_result:
  assumes ok: "storeRejects env (QueryOf ''messages'') = None"
    and k: "k \<noteq> ''__proto__''" "k \<notin> set inheritedFunctions"
  shows "\<exists>r. getProcessingStats env st org po = Inr r
           \<and> period r = (case po of None \<Rightarrow> ''week'' | Some q \<Rightarrow> q)
           \<and> (let inRange = filter (\<lambda>d. organizationId d = org
                                        \<and> startDate env (period r) \<le> createdAt d)
                               (map snd (messages st));
                   cnt = (\<lambda>f. let n = length (filter (\<lambda>d. f d = k) inRange)
                               in if n = 0 then None else Some (Count n))
               in stats_total (stats r) = length inRange
                \<and> byStatus (stats r) k = cnt processingStatus
                \<and> byChannel (stats r) k = cnt channelType
                \<and> byIntent (stats r) k = (if k = [] then None else cnt msg_intent)
                \<and> byLanguage (stats r) k = (if k = [] then None else cnt msg_language)
                \<and> averageProcessingTime (stats r) = 0)"
proof -
  define q where "q = (case po of None \<Rightarrow> ''week'' | Some q' \<Rightarrow> q')"
  define ms where "ms = queryMessages st org (startDate env q)"
  define r where "r = \<lparr>stats_success = True, period = q,
      stats = foldl (tally env) \<lparr>stats_total = length ms, byStatus = Map.empty,
        byIntent = Map.empty, byLanguage = Map.empty, byChannel = Map.empty,
        averageProcessingTime = 0\<rparr> ms\<rparr>"
  have run: "getProcessingStats env st org po = Inr r"
    unfolding r_def ms_def q_def by (rule stats_run [OF ok])
  have p: "period r = q" by (simp add: r_def)
  have ms: "filter (\<lambda>d. organizationId d = org \<and> startDate env (period r) \<le> createdAt d)
              (map snd (messages st)) = ms"
    unfolding p ms_def by (rule queryMessages_filter [symmetric])
  have s: "stats r = foldl (tally env) \<lparr>stats_total = length ms, byStatus = Map.empty,
        byIntent = Map.empty, byLanguage = Map.empty, byChannel = Map.empty,
        averageProcessingTime = 0\<rparr> ms"
    by (simp add: r_def)
  have c: "stats_total (stats r) = length ms
     \<and> byStatus (stats r) k = (let n = length (filter (\<lambda>d. processingStatus d = k) ms)
                               in if n = 0 then None else Some (Count n))
     \<and> byChannel (stats r) k = (let n = length (filter (\<lambda>d. channelType d = k) ms)
                               in if n = 0 then None else Some (Count n))
     \<and> byIntent (stats r) k = (if k = [] then None
                                else let n = length (filter (\<lambda>d. msg_intent d = k) ms)
                                     in if n = 0 then None else Some (Count n))
     \<and> byLanguage (stats r) k = (if k = [] then None
                                else let n = length (filter (\<lambda>d. msg_language d = k) ms)
                                     in if n = 0 then None else Some (Count n))
     \<and> averageProcessingTime (stats r) = 0"
    unfolding s
    by (intro conjI stats_counts [OF k])
  show ?thesis
  proof (intro exI [of _ r] conjI)
    show "getProcessingStats env st org po = Inr r" by (rule run)
    show "period r = (case po of None \<Rightarrow> ''week'' | Some q \<Rightarrow> q)" unfolding p q_def ..
    show "let inRange = filter (\<lambda>d. organizationId d = org
                                        \<and> startDate env (period r) \<le> createdAt d)
                               (map snd (messages st));
                   cnt = (\<lambda>f. let n = length (filter (\<lambda>d. f d = k) inRange)
                               in if n = 0 then None else Some (Count n))
               in stats_total (stats r) = length inRange
                \<and> byStatus (stats r) k = cnt processingStatus
                \<and> byChannel (stats r) k = cnt channelType
                \<and> byIntent (stats r) k = (if k = [] then None else cnt msg_intent)
                \<and> byLanguage (stats r) k = (if k = [] then None else cnt msg_language)
                \<and> averageProcessingTime (stats r) = 0"
      unfolding ms Let_def using c unfolding Let_def .
  qed
qed

text \<open>
  The scenario of the specification: of the five messages of the example store, three
  are of \<^verbatim>\<open>org1\<close> and of today, two completed and one failed.
\<close>

lemma stats_scenario:
  "map_sum id
     (\<lambda>r. (period r, stats_total (stats r), byStatus (stats r) ''completed'',
           byStatus (stats r) ''failed'', byStatus (stats r) ''processing''))
     (getProcessingStats demoEnv demoStore ''org1'' (Some ''today''))
   = Inr (''today'', 3, Some (Count 2), Some (Count 1), None)"
  by code_simp

text \<open>
  Claim C8 fails on the code in two places.
  \<^item> The start of \<^verbatim>\<open>month\<close> is not one calendar month before now on a day of the month
    that the month before does not have. \<^verbatim>\<open>setMonth\<close> keeps the day of the month: at noon
    of 31 March 2025 (UTC, in a zone without offset) it makes 31 February, which is 3
    March, a day of the current month.
  \<^item> The mappings are not counts under a name that \<^verbatim>\<open>Object.prototype\<close> has. The
    pipeline stores the channel type of a request as it comes; after three messages of
    today, two of channel \<^verbatim>\<open>constructor\<close> and one of channel \<^verbatim>\<open>__proto__\<close>, the total is 3,
    \<^verbatim>\<open>byChannel\<close> has a text under \<^verbatim>\<open>constructor\<close> and nothing under \<^verbatim>\<open>__proto__\<close>.
\<close>

theorem getProcessingStats_diverges:
  "startDate (demoEnv\<lparr>clock := 1743422400000, clock_later := 1743422400000,
                      LocalTZA := \<lambda>t isUTC. 0\<rparr>) ''month'' = 1741003200000
   \<and> (YearFromTime 1743422400000, MonthFromTime 1743422400000, DateFromTime 1743422400000)
       = (2025, 2, 31)
   \<and> (YearFromTime 1741003200000, MonthFromTime 1741003200000, DateFromTime 1741003200000)
       = (2025, 2, 3)
   \<and> map (\<lambda>(i, d). (organizationId d, channelType d, createdAt d))
        (messages (foldl (\<lambda>st m. fst (processMessage demoEnv st m)) emptyStore
           [demoMessage\<lparr>md_channelType := ''constructor''\<rparr>,
            demoMessage\<lparr>md_channelType := ''__proto__''\<rparr>,
            demoMessage\<lparr>md_channelType := ''constructor''\<rparr>]))
       = [(''org1'', ''constructor'', 1700000000000),
          (''org1'', ''__proto__'', 1700000000000),
          (''org1'', ''constructor'', 1700000000000)]
   \<and> startDate demoEnv ''today'' = 1699977600000
   \<and> map_sum id
        (\<lambda>r. (period r, stats_total (stats r), byChannel (stats r) ''constructor'',
              byChannel (stats r) ''__proto__''))
        (getProcessingStats demoEnv
           (foldl (\<lambda>st m. fst (processMessage demoEnv st m)) emptyStore
              [demoMessage\<lparr>md_channelType := ''constructor''\<rparr>,
               demoMessage\<lparr>md_channelType := ''__proto__''\<rparr>,
               demoMessage\<lparr>md_channelType := ''constructor''\<rparr>])
           ''org1'' (Some ''today''))
       = Inr (''today'', 3, Some (Text ''function Object() { [native code] }11''), None)"
  by code_simp

end
